theory Spec2Isabelle
  imports Main "HOL-Library.Word" "HOL-Library.Log_Nat"
begin

section \<open>JavaScript values used by the handlers\<close>

text \<open>
  The server (\<^verbatim>\<open>server.js\<close>) reads request fields that are arbitrary JSON values and
  passes them through \<^verbatim>\<open>Number(..)\<close>, \<^verbatim>\<open>typeof\<close> and \<^verbatim>\<open>String.prototype.trim\<close>.
  This section models those language primitives: strings are sequences of UTF-16 code
  units, numbers are IEEE-754 doubles given by their exact rational value.
\<close>

subsection \<open>Strings\<close>

type_synonym jsstring = "16 word list"

text \<open>An ASCII literal as a JavaScript string.\<close>

definition str :: "string \<Rightarrow> jsstring" where
  "str s = map (\<lambda>c. of_nat (of_char c)) s"

text \<open>
  The code units that \<^verbatim>\<open>trim\<close> strips and that may surround a numeric string:
  ECMAScript's WhiteSpace (TAB, VT, FF, ZWNBSP and the space separators) and
  LineTerminator (LF, CR, LS, PS).
\<close>

definition isWhiteSpace :: "16 word \<Rightarrow> bool" where
  "isWhiteSpace c \<longleftrightarrow>
     c = 0x09 \<or> c = 0x0A \<or> c = 0x0B \<or> c = 0x0C \<or> c = 0x0D \<or> c = 0x20 \<or> c = 0xA0 \<or>
     c = 0x1680 \<or> (0x2000 \<le> c \<and> c \<le> 0x200A) \<or> c = 0x2028 \<or> c = 0x2029 \<or>
     c = 0x202F \<or> c = 0x205F \<or> c = 0x3000 \<or> c = 0xFEFF"

definition trim :: "jsstring \<Rightarrow> jsstring" where
  "trim s = rev (dropWhile isWhiteSpace (rev (dropWhile isWhiteSpace s)))"

subsection \<open>Numbers\<close>

text \<open>
  A Number is NaN, an infinity, or a finite double, written as the rational it denotes.
  The two zeros are not told apart: the handlers never divide by a zero (the only
  division is guarded by \<^verbatim>\<open>totalPages === 0\<close>) and JSON prints both as \<^verbatim>\<open>0\<close>.
\<close>

datatype number = NaN | PosInf | NegInf | Fin rat

definition pow2 :: "int \<Rightarrow> rat" where
  "pow2 k = (if 0 \<le> k then 2 ^ nat k else 1 / 2 ^ nat (- k))"

text \<open>For \<open>x > 0\<close>, the integer \<open>e\<close> with \<open>2^e \<le> x < 2^(e+1)\<close>.\<close>

definition binaryExponent :: "rat \<Rightarrow> int" where
  "binaryExponent x =
     (let (n, d) = quotient_of x; k = bitlen n - bitlen d
      in if pow2 k \<le> x then k else k - 1)"

definition roundTiesToEven :: "rat \<Rightarrow> int" where
  "roundTiesToEven q =
     (let f = \<lfloor>q\<rfloor>; d = q - of_int f
      in if d < 1 / 2 then f else if 1 / 2 < d then f + 1 else if even f then f else f + 1)"

text \<open>
  The Number value for a real: the nearest double, ties to the even significand;
  53 significand bits, least exponent \<open>-1022\<close> (subnormals below it), and an infinity
  once the rounded value reaches \<open>2^1024\<close>.
\<close>

definition toDouble :: "rat \<Rightarrow> number" where
  "toDouble x =
     (if x = 0 then Fin 0
      else let a = \<bar>x\<bar>;
               e = max (binaryExponent a) (- 1022);
               u = pow2 (e - 52);
               r = of_int (roundTiesToEven (a / u)) * u
           in if pow2 1024 \<le> r then (if 0 < x then PosInf else NegInf)
              else Fin (if 0 < x then r else - r))"

fun negate :: "number \<Rightarrow> number" where
  "negate NaN = NaN"
| "negate PosInf = NegInf"
| "negate NegInf = PosInf"
| "negate (Fin x) = Fin (- x)"

text \<open>The operators \<^verbatim>\<open>/\<close> and \<^verbatim>\<open>*\<close> on Numbers.\<close>

fun divide_number :: "number \<Rightarrow> number \<Rightarrow> number" where
  "divide_number (Fin a) (Fin b) =
     (if b = 0 then (if a = 0 then NaN else if 0 < a then PosInf else NegInf)
      else toDouble (a / b))"
| "divide_number (Fin a) PosInf = Fin 0"
| "divide_number (Fin a) NegInf = Fin 0"
| "divide_number PosInf (Fin b) = (if 0 \<le> b then PosInf else NegInf)"
| "divide_number NegInf (Fin b) = (if 0 \<le> b then NegInf else PosInf)"
| "divide_number _ _ = NaN"

fun times_number :: "number \<Rightarrow> number \<Rightarrow> number" where
  "times_number (Fin a) (Fin b) = toDouble (a * b)"
| "times_number (Fin a) PosInf = (if a = 0 then NaN else if 0 < a then PosInf else NegInf)"
| "times_number (Fin a) NegInf = (if a = 0 then NaN else if 0 < a then NegInf else PosInf)"
| "times_number PosInf (Fin b) = (if b = 0 then NaN else if 0 < b then PosInf else NegInf)"
| "times_number NegInf (Fin b) = (if b = 0 then NaN else if 0 < b then NegInf else PosInf)"
| "times_number PosInf PosInf = PosInf"
| "times_number NegInf NegInf = PosInf"
| "times_number PosInf NegInf = NegInf"
| "times_number NegInf PosInf = NegInf"
| "times_number _ _ = NaN"

text \<open>\<^verbatim>\<open>Math.round\<close>: the nearest integer, a tie going towards \<open>+\<infinity>\<close>.\<close>

fun Math_round :: "number \<Rightarrow> number" where
  "Math_round (Fin x) = Fin (of_int \<lfloor>x + 1 / 2\<rfloor>)"
| "Math_round n = n"

text \<open>
  \<^verbatim>\<open>Number.isInteger\<close> on a Number; \<open>integerValue\<close> also gives the integer, which is how
  page numbers are stored below.
\<close>

fun integerValue :: "number \<Rightarrow> int option" where
  "integerValue (Fin x) = (if of_int \<lfloor>x\<rfloor> = x then Some \<lfloor>x\<rfloor> else None)"
| "integerValue _ = None"

subsection \<open>Numeric strings\<close>

definition isDecimalDigit :: "16 word \<Rightarrow> bool" where
  "isDecimalDigit c \<longleftrightarrow> 0x30 \<le> c \<and> c \<le> 0x39"

text \<open>The value of a digit or letter in the given radix, if it is one.\<close>

definition digitOf :: "int \<Rightarrow> 16 word \<Rightarrow> int option" where
  "digitOf radix c =
     (let v = (if 0x30 \<le> c \<and> c \<le> 0x39 then uint c - 48
               else if 0x61 \<le> c \<and> c \<le> 0x7A then uint c - 87
               else if 0x41 \<le> c \<and> c \<le> 0x5A then uint c - 55
               else radix)
      in if v < radix then Some v else None)"

text \<open>One or more digits of the radix and nothing else.\<close>

definition parseDigits :: "int \<Rightarrow> jsstring \<Rightarrow> int option" where
  "parseDigits radix s =
     (if s = [] \<or> \<not> list_all (\<lambda>c. digitOf radix c \<noteq> None) s then None
      else Some (foldl (\<lambda>a c. a * radix + the (digitOf radix c)) 0 s))"

text \<open>NonDecimalIntegerLiteral: \<^verbatim>\<open>0x\<close>, \<^verbatim>\<open>0o\<close>, \<^verbatim>\<open>0b\<close> (either case) and digits.\<close>

fun nonDecimalIntegerLiteral :: "jsstring \<Rightarrow> int option" where
  "nonDecimalIntegerLiteral (z # p # ds) =
     (if z \<noteq> 0x30 then None
      else if p = 0x78 \<or> p = 0x58 then parseDigits 16 ds
      else if p = 0x6F \<or> p = 0x4F then parseDigits 8 ds
      else if p = 0x62 \<or> p = 0x42 then parseDigits 2 ds
      else None)"
| "nonDecimalIntegerLiteral _ = None"

text \<open>SignedInteger of an exponent part.\<close>

fun signedInteger :: "jsstring \<Rightarrow> int option" where
  "signedInteger [] = None"
| "signedInteger (c # ds) =
     (if c = 0x2B then parseDigits 10 ds
      else if c = 0x2D then map_option uminus (parseDigits 10 ds)
      else parseDigits 10 (c # ds))"

text \<open>What follows the digits: nothing, or \<^verbatim>\<open>e\<close>/\<^verbatim>\<open>E\<close> and a signed integer.\<close>

fun exponentPart :: "jsstring \<Rightarrow> int option" where
  "exponentPart [] = Some 0"
| "exponentPart (c # r) = (if c = 0x65 \<or> c = 0x45 then signedInteger r else None)"

definition pow10 :: "int \<Rightarrow> rat" where
  "pow10 k = (if 0 \<le> k then 10 ^ nat k else 1 / 10 ^ nat (- k))"

text \<open>
  StrUnsignedDecimalLiteral: \<^verbatim>\<open>Infinity\<close>, or digits with an optional fraction and
  exponent, at least one digit before or after the point.
\<close>

definition strUnsignedDecimalLiteral :: "jsstring \<Rightarrow> number" where
  "strUnsignedDecimalLiteral s =
     (if s = str ''Infinity'' then PosInf
      else let ip = takeWhile isDecimalDigit s;
               r1 = dropWhile isDecimalDigit s;
               dot = (r1 \<noteq> [] \<and> hd r1 = 0x2E);
               fp = (if dot then takeWhile isDecimalDigit (tl r1) else []);
               r2 = (if dot then dropWhile isDecimalDigit (tl r1) else r1)
           in if ip = [] \<and> fp = [] then NaN
              else (case (parseDigits 10 (ip @ fp), exponentPart r2) of
                      (Some m, Some e) \<Rightarrow> toDouble (of_int m * pow10 (e - int (length fp)))
                    | _ \<Rightarrow> NaN))"

text \<open>StringToNumber: what \<^verbatim>\<open>Number(s)\<close> is for a string \<open>s\<close>.\<close>

definition StringToNumber :: "jsstring \<Rightarrow> number" where
  "StringToNumber s =
     (let t = trim s
      in if t = [] then Fin 0
         else (case nonDecimalIntegerLiteral t of
                 Some n \<Rightarrow> toDouble (of_int n)
               | None \<Rightarrow>
                   if hd t = 0x2B then strUnsignedDecimalLiteral (tl t)
                   else if hd t = 0x2D then negate (strUnsignedDecimalLiteral (tl t))
                   else strUnsignedDecimalLiteral t))"

subsection \<open>Request values\<close>

text \<open>
  A field of a parsed JSON body, or \<open>JUndefined\<close> when the field is absent. An array or
  object is kept as the outcome of its conversion to a primitive, the only thing the
  handlers can observe of it: the string it converts to, or \<open>None\<close> when the conversion
  throws a TypeError (a JSON object whose own \<^verbatim>\<open>toString\<close> is not callable).
\<close>

datatype jsval =
    JUndefined
  | JNull
  | JBoolean bool
  | JNumber number
  | JString jsstring
  | JObject "jsstring option"

datatype thrown = TypeError

text \<open>\<^verbatim>\<open>Number(value)\<close>.\<close>

fun ToNumber :: "jsval \<Rightarrow> thrown + number" where
  "ToNumber JUndefined = Inr NaN"
| "ToNumber JNull = Inr (Fin 0)"
| "ToNumber (JBoolean b) = Inr (Fin (if b then 1 else 0))"
| "ToNumber (JNumber n) = Inr n"
| "ToNumber (JString s) = Inr (StringToNumber s)"
| "ToNumber (JObject None) = Inl TypeError"
| "ToNumber (JObject (Some s)) = Inr (StringToNumber s)"

text \<open>\<^verbatim>\<open>Number.isInteger(value)\<close> on any value: false unless it is a Number.\<close>

fun Number_isInteger :: "jsval \<Rightarrow> bool" where
  "Number_isInteger (JNumber n) = (integerValue n \<noteq> None)"
| "Number_isInteger _ = False"

text \<open>The integer an integer-valued Number denotes.\<close>

fun numberOf :: "jsval \<Rightarrow> int" where
  "numberOf (JNumber (Fin x)) = \<lfloor>x\<rfloor>"
| "numberOf _ = 0"

subsection \<open>The server's parsing helpers\<close>

text \<open>
  \<^verbatim>\<open>function parsePage(value) { const parsed = Number(value);
    return Number.isInteger(parsed) ? parsed : null; }\<close>
\<close>

definition parsePage :: "jsval \<Rightarrow> thrown + int option" where
  "parsePage v = (case ToNumber v of Inl e \<Rightarrow> Inl e | Inr parsed \<Rightarrow> Inr (integerValue parsed))"

text \<open>
  \<^verbatim>\<open>function parseNonEmptyString(value) { if (typeof value !== 'string') return null;
    const parsed = value.trim(); return parsed ? parsed : null; }\<close>
\<close>

fun parseNonEmptyString :: "jsval \<Rightarrow> jsstring option" where
  "parseNonEmptyString (JString v) = (let parsed = trim v in if parsed \<noteq> [] then Some parsed else None)"
| "parseNonEmptyString _ = None"

section \<open>Data model\<close>

text \<open>
  \<^verbatim>\<open>models/Book.js\<close>: a Book document with its embedded vocabulary and notes arrays and
  the Mongoose timestamps. \<^verbatim>\<open>totalPages\<close> and \<^verbatim>\<open>currentPage\<close> only ever receive
  integer-valued Numbers (from the upload and from \<open>parsePage\<close>), so they are integers here.
  The virtual \<^verbatim>\<open>progressPercentage\<close> is not a field: it is the function below, applied
  whenever a document is serialised.
\<close>

type_synonym objectId = "96 word"

record vocab =
  vocab_id :: objectId
  word :: jsstring
  vdefinition :: jsstring

record noteDoc =
  note_id :: objectId
  note_title :: jsstring
  content :: jsstring
  note_createdAt :: nat

record book =
  book_id :: objectId
  title :: jsstring
  pdfUrl :: jsstring
  cloudinaryId :: jsstring
  totalPages :: int
  currentPage :: int
  vocabulary :: "vocab list"
  bookNotes :: "noteDoc list"
  owner :: objectId
  createdAt :: nat
  updatedAt :: nat

text \<open>
  \<^verbatim>\<open>bookSchema.virtual('progressPercentage').get(function() {
    if (this.totalPages === 0) return 0;
    return Math.round((this.currentPage / this.totalPages) * 100); })\<close>
\<close>

definition progressPercentage :: "book \<Rightarrow> number" where
  "progressPercentage this =
     (if totalPages this = 0 then Fin 0
      else Math_round
             (times_number
                (divide_number (Fin (of_int (currentPage this))) (Fin (of_int (totalPages this))))
                (Fin 100)))"

text \<open>
  The percentage as the specification words it,
  \<^verbatim>\<open>round(currentPage / totalPages * 100) if totalPages > 0, else 0\<close>, read in exact
  arithmetic: the quotient and the product are rationals and \<open>round\<close> is the nearest
  integer, a tie going up. It is compared with \<open>progressPercentage\<close> below.
\<close>

definition spec_progressPercentage :: "int \<Rightarrow> int \<Rightarrow> int" where
  "spec_progressPercentage cur tot =
     (if 0 < tot then round (of_int cur / of_int tot * 100 :: rat) else 0)"

text \<open>A user record: the e-mail as stored and the bcrypt hash of the password.\<close>

record user =
  user_id :: objectId
  email :: jsstring
  password :: jsstring

section \<open>The world a request runs in\<close>

text \<open>
  The persistent state: the two MongoDB collections, the public ids of the files held by
  Cloudinary, and the temporary files in \<^verbatim>\<open>uploads/\<close>.
\<close>

record state =
  books :: "book list"
  users :: "user list"
  cloud :: "jsstring list"
  uploads :: "jsstring list"

text \<open>An awaited call of an external service either resolves with a value or rejects.\<close>

datatype 'a outcome = Resolves 'a | Rejects

text \<open>
  What one request gets from outside the server's own code: library functions
  (\<^verbatim>\<open>mongoose.Types.ObjectId\<close>, whose \<^verbatim>\<open>isValid\<close> holds exactly of the strings that cast;
  \<^verbatim>\<open>toLowerCase\<close>; \<^verbatim>\<open>bcrypt.compare\<close>; \<^verbatim>\<open>jwt.sign\<close>), the clock, the fresh ObjectId of a
  document or subdocument created by the request, and whether each awaited call of the
  request resolves. A handler makes at most one query, one write, one Cloudinary upload
  and one Cloudinary destroy.
\<close>

record env =
  castObjectId :: "jsstring \<Rightarrow> objectId option"
  toLowerCase :: "jsstring \<Rightarrow> jsstring"
  bcrypt_compare :: "jsstring \<Rightarrow> jsstring \<Rightarrow> bool"
  jwt_sign :: "objectId \<Rightarrow> jsstring"
  Date_now :: nat
  newObjectId :: objectId
  db_query :: "unit outcome"
  db_write :: "unit outcome"
  fs_readFile :: "unit outcome"
  fs_unlink :: "unit outcome"
  pdf :: "jsval outcome"
  cloudinary_upload :: "(jsstring \<times> jsstring) outcome"
  cloudinary_destroy :: "unit outcome"

text \<open>
  A response: the status and the JSON body. A document is serialised with its virtuals
  (\<^verbatim>\<open>toJSON: { virtuals: true }\<close>), so a Book travels with its percentage.
  \<open>PageCannotExceed n\<close> is the body
  \<^verbatim>\<open>{ error: `Page cannot exceed total pages (${n}).` }\<close>.
\<close>

datatype body =
    Error string
  | PageCannotExceed int
  | Message string
  | Token jsstring objectId
  | BookJson book number
  | BooksJson "(book \<times> number) list"
  | Progress int number
  | VocabularyJson "vocab list"
  | VocabJson vocab
  | NotesJson "noteDoc list"
  | NoteJson noteDoc

record response =
  status :: nat
  body :: body

definition toJSON :: "book \<Rightarrow> book \<times> number" where
  "toJSON b = (b, progressPercentage b)"

section \<open>Mongoose operations\<close>

text \<open>\<^verbatim>\<open>Book.findOne({ _id: id, owner: userId })\<close>: the first document matching both.\<close>

definition findOne :: "objectId \<Rightarrow> objectId \<Rightarrow> book list \<Rightarrow> book option" where
  "findOne i u bs = find (\<lambda>b. book_id b = i \<and> owner b = u) bs"

text \<open>\<^verbatim>\<open>Book.find({ owner: userId }).sort({ createdAt: -1 })\<close>.\<close>

definition find_sorted :: "objectId \<Rightarrow> book list \<Rightarrow> book list" where
  "find_sorted u bs = sort_key (\<lambda>b. - int (createdAt b)) (filter (\<lambda>b. owner b = u) bs)"

text \<open>
  \<^verbatim>\<open>doc.save()\<close> of a loaded document writes it back under its \<^verbatim>\<open>_id\<close>
  (\<^verbatim>\<open>updateOne({ _id })\<close>, the first match); \<^verbatim>\<open>updatedAt\<close> moves only if a path was modified.
\<close>

fun updateOne :: "objectId \<Rightarrow> book \<Rightarrow> book list \<Rightarrow> book list" where
  "updateOne i d [] = []"
| "updateOne i d (b # bs) = (if book_id b = i then d # bs else b # updateOne i d bs)"

definition save :: "nat \<Rightarrow> book \<Rightarrow> book \<Rightarrow> book list \<Rightarrow> book list" where
  "save now loaded doc bs =
     updateOne (book_id doc) (if doc = loaded then doc else doc\<lparr>updatedAt := now\<rparr>) bs"

text \<open>\<^verbatim>\<open>Book.findByIdAndDelete(id)\<close>: removes the first document with that \<^verbatim>\<open>_id\<close>.\<close>

fun findByIdAndDelete :: "objectId \<Rightarrow> book list \<Rightarrow> book list" where
  "findByIdAndDelete i [] = []"
| "findByIdAndDelete i (b # bs) = (if book_id b = i then bs else b # findByIdAndDelete i bs)"

text \<open>
  A subdocument found by \<^verbatim>\<open>array.id(x)\<close> is the first with that \<^verbatim>\<open>_id\<close>; assigning to its
  fields changes that element in place. The schema's \<^verbatim>\<open>trim\<close> setters on the
  subdocument strings only ever receive strings the handlers have trimmed already.
\<close>

fun updateFirst :: "('a \<Rightarrow> bool) \<Rightarrow> 'a \<Rightarrow> 'a list \<Rightarrow> 'a list" where
  "updateFirst P y [] = []"
| "updateFirst P y (x # xs) = (if P x then y # xs else x # updateFirst P y xs)"

section \<open>Handlers\<close>

text \<open>
  Each route handler of \<^verbatim>\<open>server.js\<close> as a function of the environment, the state, the
  authenticated user (\<^verbatim>\<open>req.user.id\<close>, set by the \<^verbatim>\<open>auth\<close> middleware) and the request's
  parameters and body fields, returning the response and the state it leaves. A rejected
  await or a thrown error inside \<^verbatim>\<open>try\<close> reaches the handler's \<^verbatim>\<open>catch\<close>.
\<close>

definition respond :: "nat \<Rightarrow> body \<Rightarrow> response" where
  "respond c b = \<lparr>status = c, body = b\<rparr>"

subsection \<open>POST /auth/login\<close>

definition login :: "env \<Rightarrow> state \<Rightarrow> jsval \<Rightarrow> jsval \<Rightarrow> response" where
  "login env s email_field password_field =
     (case (email_field, password_field) of
        (JString e, JString p) \<Rightarrow>
          (let normalizedEmail = toLowerCase env (trim e)
           in case db_query env of
                Rejects \<Rightarrow> respond 500 (Error ''Login failed.'')
              | Resolves _ \<Rightarrow>
                  (case find (\<lambda>u. email u = normalizedEmail) (users s) of
                     None \<Rightarrow> respond 400 (Error ''Invalid login credentials.'')
                   | Some u \<Rightarrow>
                       if \<not> bcrypt_compare env p (password u)
                       then respond 400 (Error ''Invalid login credentials.'')
                       else respond 200 (Token (jwt_sign env (user_id u)) (user_id u))))
      | _ \<Rightarrow> respond 400 (Error ''Email and password are required.''))"

subsection \<open>POST /upload-book\<close>

record upload =
  mimetype :: jsstring
  originalname :: jsstring
  size :: nat
  path :: jsstring

definition MAX_PDF_SIZE_BYTES :: nat where
  "MAX_PDF_SIZE_BYTES = 15 * 1024 * 1024"

text \<open>\<^verbatim>\<open>/\.pdf$/i.test(name)\<close>.\<close>

definition hasPdfExtension :: "jsstring \<Rightarrow> bool" where
  "hasPdfExtension name =
     (case rev name of
        f # d # p # dot # _ \<Rightarrow>
          dot = 0x2E \<and> (p = 0x70 \<or> p = 0x50) \<and> (d = 0x64 \<or> d = 0x44) \<and> (f = 0x66 \<or> f = 0x46)
      | _ \<Rightarrow> False)"

text \<open>The multer \<^verbatim>\<open>fileFilter\<close>: true when the file is accepted.\<close>

definition fileFilter :: "upload \<Rightarrow> bool" where
  "fileFilter f =
     (let hasPdfMime = (mimetype f = str ''application/pdf'')
      in \<not> (\<not> hasPdfMime \<and> \<not> hasPdfExtension (originalname f)))"

text \<open>
  The schema's validation of a new Book: the three required strings, trimmed by their
  setters, must be non-empty; the page counts must not be negative.
\<close>

definition validates :: "book \<Rightarrow> bool" where
  "validates b \<longleftrightarrow>
     title b \<noteq> [] \<and> pdfUrl b \<noteq> [] \<and> cloudinaryId b \<noteq> [] \<and> 0 \<le> totalPages b \<and> 0 \<le> currentPage b"

text \<open>
  \<^verbatim>\<open>new Book({ title, pdfUrl: result.secure_url, cloudinaryId: result.public_id,
    totalPages, owner: req.user.id })\<close>: the strings pass their \<^verbatim>\<open>trim\<close> setters, the other
  paths take their defaults, and the document gets a fresh \<^verbatim>\<open>_id\<close> and its timestamps.
\<close>

definition new_Book ::
  "env \<Rightarrow> jsstring \<Rightarrow> jsstring \<Rightarrow> jsstring \<Rightarrow> int \<Rightarrow> objectId \<Rightarrow> book" where
  "new_Book env t secure_url public_id pages userId =
     \<lparr>book_id = newObjectId env, title = trim t, pdfUrl = trim secure_url,
      cloudinaryId = trim public_id, totalPages = pages, currentPage = 0,
      vocabulary = [], bookNotes = [], owner = userId,
      createdAt = Date_now env, updatedAt = Date_now env\<rparr>"

text \<open>The body of the handler's \<^verbatim>\<open>try\<close>, once multer has stored the file.\<close>

definition upload_try :: "env \<Rightarrow> state \<Rightarrow> objectId \<Rightarrow> upload \<Rightarrow> jsval \<Rightarrow> response \<times> state" where
  "upload_try env s userId f title_field =
     (case fs_readFile env of
        Rejects \<Rightarrow> (respond 500 (Error ''Upload failed.''), s)
      | Resolves _ \<Rightarrow>
     (case pdf env of
        Rejects \<Rightarrow> (respond 500 (Error ''Upload failed.''), s)
      | Resolves numpages \<Rightarrow>
     (let pages = (if Number_isInteger numpages then max (numberOf numpages) 0 else 0)
      in case cloudinary_upload env of
           Rejects \<Rightarrow> (respond 500 (Error ''Upload failed.''), s)
         | Resolves (secure_url, public_id) \<Rightarrow>
     (let s1 = s\<lparr>cloud := public_id # cloud s\<rparr>;
          t = (case parseNonEmptyString title_field of Some t \<Rightarrow> t | None \<Rightarrow> originalname f);
          newBook = new_Book env t secure_url public_id pages userId
      in if \<not> validates newBook then (respond 500 (Error ''Upload failed.''), s1)
         else (case db_write env of
                 Rejects \<Rightarrow> (respond 500 (Error ''Upload failed.''), s1)
               | Resolves _ \<Rightarrow>
                   (respond 201 (BookJson newBook (progressPercentage newBook)),
                    s1\<lparr>books := books s1 @ [newBook]\<rparr>))))))"

text \<open>
  The route: multer's filter and size limit (their errors go to the error middleware),
  the handler, and its \<^verbatim>\<open>finally\<close>, which unlinks the temporary file and ignores a failure
  to do so.
\<close>

definition upload_book :: "env \<Rightarrow> state \<Rightarrow> objectId \<Rightarrow> upload option \<Rightarrow> jsval \<Rightarrow> response \<times> state" where
  "upload_book env s userId pdf_part title_field =
     (case pdf_part of
        None \<Rightarrow> (respond 400 (Error ''PDF required.''), s)
      | Some f \<Rightarrow>
          if \<not> fileFilter f then (respond 400 (Error ''Only PDF files are allowed.''), s)
          else if MAX_PDF_SIZE_BYTES < size f
          then (respond 400 (Error ''PDF file must be 15 MB or smaller.''), s)
          else (let (r, s') = upload_try env (s\<lparr>uploads := path f # uploads s\<rparr>) userId f title_field
                in (r, case fs_unlink env of
                         Resolves _ \<Rightarrow> s'\<lparr>uploads := remove1 (path f) (uploads s')\<rparr>
                       | Rejects \<Rightarrow> s')))"

subsection \<open>GET /books\<close>

definition get_books :: "env \<Rightarrow> state \<Rightarrow> objectId \<Rightarrow> response \<times> state" where
  "get_books env s userId =
     (case db_query env of
        Rejects \<Rightarrow> (respond 500 (Error ''Could not fetch books.''), s)
      | Resolves _ \<Rightarrow> (respond 200 (BooksJson (map toJSON (find_sorted userId (books s)))), s))"

subsection \<open>PATCH /books/:id/progress\<close>

definition updateProgress :: "env \<Rightarrow> state \<Rightarrow> objectId \<Rightarrow> jsstring \<Rightarrow> jsval \<Rightarrow> response \<times> state" where
  "updateProgress env s userId bookId page_field =
     (case castObjectId env bookId of
        None \<Rightarrow> (respond 400 (Error ''Invalid book ID.''), s)
      | Some i \<Rightarrow>
     (case parsePage page_field of
        Inl _ \<Rightarrow> (respond 500 (Error ''Update failed.''), s)
      | Inr None \<Rightarrow> (respond 400 (Error ''Page must be a non-negative integer.''), s)
      | Inr (Some page) \<Rightarrow>
          if page < 0 then (respond 400 (Error ''Page must be a non-negative integer.''), s)
          else
     (case db_query env of
        Rejects \<Rightarrow> (respond 500 (Error ''Update failed.''), s)
      | Resolves _ \<Rightarrow>
     (case findOne i userId (books s) of
        None \<Rightarrow> (respond 404 (Error ''Book not found.''), s)
      | Some loaded \<Rightarrow>
          if 0 < totalPages loaded \<and> totalPages loaded < page
          then (respond 400 (PageCannotExceed (totalPages loaded)), s)
          else
     (let book = loaded\<lparr>currentPage := page\<rparr>
      in case db_write env of
           Rejects \<Rightarrow> (respond 500 (Error ''Update failed.''), s)
         | Resolves _ \<Rightarrow>
             (respond 200 (Progress (currentPage book) (progressPercentage book)),
              s\<lparr>books := save (Date_now env) loaded book (books s)\<rparr>))))))"

subsection \<open>POST /books/:id/vocab\<close>

text \<open>\<^verbatim>\<open>typeof v !== 'string' || !v.trim()\<close>.\<close>

fun blank :: "jsval \<Rightarrow> bool" where
  "blank (JString v) = (trim v = [])"
| "blank _ = True"

fun stringOf :: "jsval \<Rightarrow> jsstring" where
  "stringOf (JString v) = v"
| "stringOf _ = []"

definition addVocab ::
  "env \<Rightarrow> state \<Rightarrow> objectId \<Rightarrow> jsstring \<Rightarrow> jsval \<Rightarrow> jsval \<Rightarrow> response \<times> state" where
  "addVocab env s userId bookId word_field definition_field =
     (case castObjectId env bookId of
        None \<Rightarrow> (respond 400 (Error ''Invalid book ID.''), s)
      | Some i \<Rightarrow>
          if blank word_field then (respond 400 (Error ''word is required.''), s)
          else if blank definition_field then (respond 400 (Error ''definition is required.''), s)
          else
     (case db_query env of
        Rejects \<Rightarrow> (respond 500 (Error ''Could not add vocab.''), s)
      | Resolves _ \<Rightarrow>
     (case findOne i userId (books s) of
        None \<Rightarrow> (respond 404 (Error ''Book not found.''), s)
      | Some loaded \<Rightarrow>
     (let entry = \<lparr>vocab_id = newObjectId env, word = trim (stringOf word_field),
                   vdefinition = trim (stringOf definition_field)\<rparr>;
          book = loaded\<lparr>vocabulary := vocabulary loaded @ [entry]\<rparr>
      in case db_write env of
           Rejects \<Rightarrow> (respond 500 (Error ''Could not add vocab.''), s)
         | Resolves _ \<Rightarrow>
             (respond 200 (VocabularyJson (vocabulary book)),
              s\<lparr>books := save (Date_now env) loaded book (books s)\<rparr>)))))"

subsection \<open>PATCH /books/:id/vocab/:vocabId\<close>

text \<open>\<^verbatim>\<open>if (word) vocab.word = word; if (definition) vocab.definition = definition;\<close>\<close>

definition patchVocab :: "jsstring option \<Rightarrow> jsstring option \<Rightarrow> vocab \<Rightarrow> vocab" where
  "patchVocab w d v0 =
     (let v1 = (case w of Some x \<Rightarrow> v0\<lparr>word := x\<rparr> | None \<Rightarrow> v0)
      in case d of Some x \<Rightarrow> v1\<lparr>vdefinition := x\<rparr> | None \<Rightarrow> v1)"

definition updateVocab ::
  "env \<Rightarrow> state \<Rightarrow> objectId \<Rightarrow> jsstring \<Rightarrow> jsstring \<Rightarrow> jsval \<Rightarrow> jsval \<Rightarrow> response \<times> state" where
  "updateVocab env s userId bookId vocabId word_field definition_field =
     (case castObjectId env bookId of
        None \<Rightarrow> (respond 400 (Error ''Invalid book ID.''), s)
      | Some i \<Rightarrow>
     (case castObjectId env vocabId of
        None \<Rightarrow> (respond 400 (Error ''Invalid vocab ID.''), s)
      | Some vi \<Rightarrow>
     (let w = parseNonEmptyString word_field;
          d = parseNonEmptyString definition_field
      in if w = None \<and> d = None
         then (respond 400 (Error ''At least one of word or definition is required.''), s)
         else
     (case db_query env of
        Rejects \<Rightarrow> (respond 500 (Error ''Could not update vocab.''), s)
      | Resolves _ \<Rightarrow>
     (case findOne i userId (books s) of
        None \<Rightarrow> (respond 404 (Error ''Book not found.''), s)
      | Some loaded \<Rightarrow>
     (case find (\<lambda>v. vocab_id v = vi) (vocabulary loaded) of
        None \<Rightarrow> (respond 404 (Error ''Vocab not found.''), s)
      | Some v0 \<Rightarrow>
     (let v2 = patchVocab w d v0;
          book = loaded\<lparr>vocabulary := updateFirst (\<lambda>v. vocab_id v = vi) v2 (vocabulary loaded)\<rparr>
      in case db_write env of
           Rejects \<Rightarrow> (respond 500 (Error ''Could not update vocab.''), s)
         | Resolves _ \<Rightarrow>
             (respond 200 (VocabJson v2),
              s\<lparr>books := save (Date_now env) loaded book (books s)\<rparr>))))))))"

subsection \<open>DELETE /books/:id/vocab/:vocabId\<close>

text \<open>
  \<^verbatim>\<open>vocab.deleteOne()\<close> pulls from the parent array the subdocuments with the \<^verbatim>\<open>_id\<close> of
  the one found.
\<close>

definition deleteVocab ::
  "env \<Rightarrow> state \<Rightarrow> objectId \<Rightarrow> jsstring \<Rightarrow> jsstring \<Rightarrow> response \<times> state" where
  "deleteVocab env s userId bookId vocabId =
     (case castObjectId env bookId of
        None \<Rightarrow> (respond 400 (Error ''Invalid book ID.''), s)
      | Some i \<Rightarrow>
     (case castObjectId env vocabId of
        None \<Rightarrow> (respond 400 (Error ''Invalid vocab ID.''), s)
      | Some vi \<Rightarrow>
     (case db_query env of
        Rejects \<Rightarrow> (respond 500 (Error ''Could not delete vocab.''), s)
      | Resolves _ \<Rightarrow>
     (case findOne i userId (books s) of
        None \<Rightarrow> (respond 404 (Error ''Book not found.''), s)
      | Some loaded \<Rightarrow>
     (case find (\<lambda>v. vocab_id v = vi) (vocabulary loaded) of
        None \<Rightarrow> (respond 404 (Error ''Vocab not found.''), s)
      | Some v0 \<Rightarrow>
     (let book = loaded\<lparr>vocabulary := filter (\<lambda>v. vocab_id v \<noteq> vocab_id v0) (vocabulary loaded)\<rparr>
      in case db_write env of
           Rejects \<Rightarrow> (respond 500 (Error ''Could not delete vocab.''), s)
         | Resolves _ \<Rightarrow>
             (respond 200 (Message ''Vocab deleted.''),
              s\<lparr>books := save (Date_now env) loaded book (books s)\<rparr>)))))))"

subsection \<open>POST /books/:id/notes\<close>

definition addNote ::
  "env \<Rightarrow> state \<Rightarrow> objectId \<Rightarrow> jsstring \<Rightarrow> jsval \<Rightarrow> jsval \<Rightarrow> response \<times> state" where
  "addNote env s userId bookId title_field content_field =
     (case castObjectId env bookId of
        None \<Rightarrow> (respond 400 (Error ''Invalid book ID.''), s)
      | Some i \<Rightarrow>
     (case parseNonEmptyString title_field of
        None \<Rightarrow> (respond 400 (Error ''title is required.''), s)
      | Some t \<Rightarrow>
     (case parseNonEmptyString content_field of
        None \<Rightarrow> (respond 400 (Error ''content is required.''), s)
      | Some c \<Rightarrow>
     (case db_query env of
        Rejects \<Rightarrow> (respond 500 (Error ''Could not add note.''), s)
      | Resolves _ \<Rightarrow>
     (case findOne i userId (books s) of
        None \<Rightarrow> (respond 404 (Error ''Book not found.''), s)
      | Some loaded \<Rightarrow>
     (let entry = \<lparr>note_id = newObjectId env, note_title = t, content = c,
                   note_createdAt = Date_now env\<rparr>;
          book = loaded\<lparr>bookNotes := bookNotes loaded @ [entry]\<rparr>
      in case db_write env of
           Rejects \<Rightarrow> (respond 500 (Error ''Could not add note.''), s)
         | Resolves _ \<Rightarrow>
             (respond 201 (NoteJson (last (bookNotes book))),
              s\<lparr>books := save (Date_now env) loaded book (books s)\<rparr>)))))))"

subsection \<open>GET /books/:id/notes\<close>

definition getNotes :: "env \<Rightarrow> state \<Rightarrow> objectId \<Rightarrow> jsstring \<Rightarrow> response \<times> state" where
  "getNotes env s userId bookId =
     (case castObjectId env bookId of
        None \<Rightarrow> (respond 400 (Error ''Invalid book ID.''), s)
      | Some i \<Rightarrow>
     (case db_query env of
        Rejects \<Rightarrow> (respond 500 (Error ''Could not fetch notes.''), s)
      | Resolves _ \<Rightarrow>
     (case findOne i userId (books s) of
        None \<Rightarrow> (respond 404 (Error ''Book not found.''), s)
      | Some book \<Rightarrow> (respond 200 (NotesJson (bookNotes book)), s))))"

subsection \<open>PATCH /books/:id/notes/:noteId\<close>

text \<open>\<^verbatim>\<open>if (title) note.title = title; if (content) note.content = content;\<close>\<close>

definition patchNote :: "jsstring option \<Rightarrow> jsstring option \<Rightarrow> noteDoc \<Rightarrow> noteDoc" where
  "patchNote t c n0 =
     (let n1 = (case t of Some x \<Rightarrow> n0\<lparr>note_title := x\<rparr> | None \<Rightarrow> n0)
      in case c of Some x \<Rightarrow> n1\<lparr>content := x\<rparr> | None \<Rightarrow> n1)"

definition updateNote ::
  "env \<Rightarrow> state \<Rightarrow> objectId \<Rightarrow> jsstring \<Rightarrow> jsstring \<Rightarrow> jsval \<Rightarrow> jsval \<Rightarrow> response \<times> state" where
  "updateNote env s userId bookId noteId title_field content_field =
     (case castObjectId env bookId of
        None \<Rightarrow> (respond 400 (Error ''Invalid book ID.''), s)
      | Some i \<Rightarrow>
     (case castObjectId env noteId of
        None \<Rightarrow> (respond 400 (Error ''Invalid note ID.''), s)
      | Some ni \<Rightarrow>
     (let t = parseNonEmptyString title_field;
          c = parseNonEmptyString content_field
      in if t = None \<and> c = None
         then (respond 400 (Error ''At least one of title or content is required.''), s)
         else
     (case db_query env of
        Rejects \<Rightarrow> (respond 500 (Error ''Could not update note.''), s)
      | Resolves _ \<Rightarrow>
     (case findOne i userId (books s) of
        None \<Rightarrow> (respond 404 (Error ''Book not found.''), s)
      | Some loaded \<Rightarrow>
     (case find (\<lambda>n. note_id n = ni) (bookNotes loaded) of
        None \<Rightarrow> (respond 404 (Error ''Note not found.''), s)
      | Some n0 \<Rightarrow>
     (let n2 = patchNote t c n0;
          book = loaded\<lparr>bookNotes := updateFirst (\<lambda>n. note_id n = ni) n2 (bookNotes loaded)\<rparr>
      in case db_write env of
           Rejects \<Rightarrow> (respond 500 (Error ''Could not update note.''), s)
         | Resolves _ \<Rightarrow>
             (respond 200 (NoteJson n2),
              s\<lparr>books := save (Date_now env) loaded book (books s)\<rparr>))))))))"

subsection \<open>DELETE /books/:id/notes/:noteId\<close>

definition deleteNote ::
  "env \<Rightarrow> state \<Rightarrow> objectId \<Rightarrow> jsstring \<Rightarrow> jsstring \<Rightarrow> response \<times> state" where
  "deleteNote env s userId bookId noteId =
     (case castObjectId env bookId of
        None \<Rightarrow> (respond 400 (Error ''Invalid book ID.''), s)
      | Some i \<Rightarrow>
     (case castObjectId env noteId of
        None \<Rightarrow> (respond 400 (Error ''Invalid note ID.''), s)
      | Some ni \<Rightarrow>
     (case db_query env of
        Rejects \<Rightarrow> (respond 500 (Error ''Could not delete note.''), s)
      | Resolves _ \<Rightarrow>
     (case findOne i userId (books s) of
        None \<Rightarrow> (respond 404 (Error ''Book not found.''), s)
      | Some loaded \<Rightarrow>
     (case find (\<lambda>n. note_id n = ni) (bookNotes loaded) of
        None \<Rightarrow> (respond 404 (Error ''Note not found.''), s)
      | Some n0 \<Rightarrow>
     (let book = loaded\<lparr>bookNotes := filter (\<lambda>n. note_id n \<noteq> note_id n0) (bookNotes loaded)\<rparr>
      in case db_write env of
           Rejects \<Rightarrow> (respond 500 (Error ''Could not delete note.''), s)
         | Resolves _ \<Rightarrow>
             (respond 200 (Message ''Note deleted.''),
              s\<lparr>books := save (Date_now env) loaded book (books s)\<rparr>)))))))"

subsection \<open>DELETE /books/:id\<close>

text \<open>
  The two awaited steps in the order of the source: \<^verbatim>\<open>cloudinary.uploader.destroy\<close> of the
  Book's \<^verbatim>\<open>cloudinaryId\<close>, then \<^verbatim>\<open>Book.findByIdAndDelete\<close>. Destroying a file Cloudinary
  does not hold resolves (with \<^verbatim>\<open>result: 'not found'\<close>); a rejection of either step ends
  in the \<^verbatim>\<open>catch\<close> with whatever was done before it.
\<close>

definition destroyed :: "jsstring \<Rightarrow> state \<Rightarrow> state" where
  "destroyed public_id s = s\<lparr>cloud := removeAll public_id (cloud s)\<rparr>"

definition deleteBook :: "env \<Rightarrow> state \<Rightarrow> objectId \<Rightarrow> jsstring \<Rightarrow> response \<times> state" where
  "deleteBook env s userId bookId =
     (case castObjectId env bookId of
        None \<Rightarrow> (respond 400 (Error ''Invalid book ID.''), s)
      | Some i \<Rightarrow>
     (case db_query env of
        Rejects \<Rightarrow> (respond 500 (Error ''Delete failed.''), s)
      | Resolves _ \<Rightarrow>
     (case findOne i userId (books s) of
        None \<Rightarrow> (respond 404 (Error ''Unauthorized or not found.''), s)
      | Some book \<Rightarrow>
     (case cloudinary_destroy env of
        Rejects \<Rightarrow> (respond 500 (Error ''Delete failed.''), s)
      | Resolves _ \<Rightarrow>
     (let s1 = destroyed (cloudinaryId book) s
      in case db_write env of
           Rejects \<Rightarrow> (respond 500 (Error ''Delete failed.''), s1)
         | Resolves _ \<Rightarrow>
             (respond 200 (Message ''Book deleted.''),
              s1\<lparr>books := findByIdAndDelete i (books s1)\<rparr>))))))"

subsection \<open>The Book routes together\<close>

text \<open>A request to one of the protected Book routes, with its path parameters and body fields.\<close>

datatype request =
    GetBooks
  | UpdateProgress jsstring jsval
  | AddVocab jsstring jsval jsval
  | UpdateVocab jsstring jsstring jsval jsval
  | DeleteVocab jsstring jsstring
  | AddNote jsstring jsval jsval
  | GetNotes jsstring
  | UpdateNote jsstring jsstring jsval jsval
  | DeleteNote jsstring jsstring
  | DeleteBook jsstring

fun route :: "env \<Rightarrow> state \<Rightarrow> objectId \<Rightarrow> request \<Rightarrow> response \<times> state" where
  "route env s u GetBooks = get_books env s u"
| "route env s u (UpdateProgress bookId page) = updateProgress env s u bookId page"
| "route env s u (AddVocab bookId w d) = addVocab env s u bookId w d"
| "route env s u (UpdateVocab bookId vocabId w d) = updateVocab env s u bookId vocabId w d"
| "route env s u (DeleteVocab bookId vocabId) = deleteVocab env s u bookId vocabId"
| "route env s u (AddNote bookId t c) = addNote env s u bookId t c"
| "route env s u (GetNotes bookId) = getNotes env s u bookId"
| "route env s u (UpdateNote bookId noteId t c) = updateNote env s u bookId noteId t c"
| "route env s u (DeleteNote bookId noteId) = deleteNote env s u bookId noteId"
| "route env s u (DeleteBook bookId) = deleteBook env s u bookId"

section \<open>Invariants of the stored Books\<close>

text \<open>
  What holds of every Book the routes can produce: page counts are not negative and, when
  the total is known, the current page does not exceed it (\<open>route_pagesOk\<close> and
  \<open>upload_pagesOk\<close> below). MongoDB keeps the \<^verbatim>\<open>_id\<close>s of a collection distinct.
\<close>

definition pagesOk :: "book \<Rightarrow> bool" where
  "pagesOk b \<longleftrightarrow>
     0 \<le> currentPage b \<and> 0 \<le> totalPages b \<and> (0 < totalPages b \<longrightarrow> currentPage b \<le> totalPages b)"

definition distinctIds :: "state \<Rightarrow> bool" where
  "distinctIds s \<longleftrightarrow> distinct (map book_id (books s))"

section \<open>An example world\<close>

text \<open>
  A concrete environment and state on which the theorems below are instantiated: ObjectIds
  are 24 hexadecimal digits, Alice (user 1) owns book \<open>0xb1\<close>, Bob (user 2)
  owns book \<open>0xb2\<close>.
\<close>

definition hex24 :: "jsstring \<Rightarrow> objectId option" where
  "hex24 s = (if length s = 24 then map_option word_of_int (parseDigits 16 s) else None)"

definition asciiLower :: "jsstring \<Rightarrow> jsstring" where
  "asciiLower s = map (\<lambda>c. if 0x41 \<le> c \<and> c \<le> 0x5A then c + 0x20 else c) s"

definition env0 :: env where
  "env0 = \<lparr>castObjectId = hex24, toLowerCase = asciiLower,
            bcrypt_compare = (\<lambda>p h. h = str ''$2b$12$'' @ p),
            jwt_sign = (\<lambda>i. str ''token''),
            Date_now = 1000, newObjectId = 0xF00,
            db_query = Resolves (), db_write = Resolves (),
            fs_readFile = Resolves (), fs_unlink = Resolves (),
            pdf = Resolves (JNumber (Fin 10)),
            cloudinary_upload = Resolves (str ''https://res.example/my_ebooks/f3'', str ''my_ebooks/f3''),
            cloudinary_destroy = Resolves ()\<rparr>"

definition alice :: user where
  "alice = \<lparr>user_id = 1, email = str ''alice@example.com'', password = str ''$2b$12$secret-of-alice''\<rparr>"

definition bob :: user where
  "bob = \<lparr>user_id = 2, email = str ''bob@example.com'', password = str ''$2b$12$secret-of-bob''\<rparr>"

definition ubiquitous :: vocab where
  "ubiquitous = \<lparr>vocab_id = 0xA1, word = str ''ubiquitous'', vdefinition = str ''present everywhere''\<rparr>"

definition widespread :: vocab where
  "widespread = \<lparr>vocab_id = 0xA2, word = str ''pervasive'', vdefinition = str ''spreading widely''\<rparr>"

definition point :: noteDoc where
  "point = \<lparr>note_id = 0xC1, note_title = str ''Important point'', content = str ''Main concept'',
             note_createdAt = 500\<rparr>"

definition book1 :: book where
  "book1 = \<lparr>book_id = 0xB1, title = str ''Smoke Test Book'', pdfUrl = str ''https://res.example/my_ebooks/f1'',
             cloudinaryId = str ''my_ebooks/f1'', totalPages = 10, currentPage = 5,
             vocabulary = [ubiquitous, widespread], bookNotes = [point], owner = 1,
             createdAt = 100, updatedAt = 100\<rparr>"

definition book2 :: book where
  "book2 = \<lparr>book_id = 0xB2, title = str ''Other'', pdfUrl = str ''https://res.example/my_ebooks/f2'',
             cloudinaryId = str ''my_ebooks/f2'', totalPages = 0, currentPage = 7,
             vocabulary = [], bookNotes = [], owner = 2,
             createdAt = 200, updatedAt = 200\<rparr>"

definition s0 :: state where
  "s0 = \<lparr>books = [book1, book2], users = [alice, bob],
          cloud = [str ''my_ebooks/f1'', str ''my_ebooks/f2''], uploads = []\<rparr>"

definition report_pdf :: upload where
  "report_pdf = \<lparr>mimetype = str ''application/octet-stream'', originalname = str ''Report.PDF'',
                  size = 2048, path = str ''uploads/3f9a''\<rparr>"

definition id_b1 :: jsstring where
  "id_b1 = str ''0000000000000000000000b1''"

definition id_b2 :: jsstring where
  "id_b2 = str ''0000000000000000000000b2''"

definition id_a1 :: jsstring where
  "id_a1 = str ''0000000000000000000000a1''"

definition id_c1 :: jsstring where
  "id_c1 = str ''0000000000000000000000c1''"

section \<open>Facts about the store operations\<close>

lemma findOne_Cons:
  "findOne i u (a # bs) = (if book_id a = i \<and> owner a = u then Some a else findOne i u bs)"
  by (simp add: findOne_def)

lemma findOne_Nil: "findOne i u [] = None"
  by (simp add: findOne_def)

lemma findOne_SomeD:
  "findOne i u bs = Some b \<Longrightarrow> b \<in> set bs \<and> book_id b = i \<and> owner b = u"
  by (induction bs) (auto simp: findOne_Cons findOne_Nil split: if_splits)

lemma findOne_id_in: "findOne i u bs = Some b \<Longrightarrow> i \<in> book_id ` set bs"
  using findOne_SomeD by fastforce

lemma findOne_filter_owner:
  "findOne i u (filter (\<lambda>b. owner b = u) bs) = findOne i u bs"
  by (induction bs) (auto simp: findOne_Cons findOne_Nil)

lemma updateOne_ids: "book_id d = i \<Longrightarrow> map book_id (updateOne i d bs) = map book_id bs"
  by (induction bs) auto

lemma findOne_updateOne:
  assumes "distinct (map book_id bs)" and "findOne i u bs = Some b"
    and "book_id d = i" and "owner d = u"
  shows "findOne i u (updateOne i d bs) = Some d"
  using assms
  by (induction bs) (auto simp: findOne_Cons findOne_Nil split: if_splits dest: findOne_id_in)

lemma updateOne_others:
  assumes "distinct (map book_id bs)" and "findOne i u bs = Some b" and "owner d = u"
  shows "filter (\<lambda>x. owner x \<noteq> u) (updateOne i d bs) = filter (\<lambda>x. owner x \<noteq> u) bs"
  using assms
  by (induction bs) (auto simp: findOne_Cons findOne_Nil split: if_splits dest: findOne_id_in)

lemma updateOne_same:
  "findOne i u bs = Some b \<Longrightarrow> distinct (map book_id bs) \<Longrightarrow> updateOne i b bs = bs"
  by (induction bs) (auto simp: findOne_Cons findOne_Nil split: if_splits dest: findOne_id_in)

lemma findByIdAndDelete_others:
  assumes "distinct (map book_id bs)" and "findOne i u bs = Some b"
  shows "filter (\<lambda>x. owner x \<noteq> u) (findByIdAndDelete i bs) = filter (\<lambda>x. owner x \<noteq> u) bs"
  using assms
  by (induction bs) (auto simp: findOne_Cons findOne_Nil split: if_splits dest: findOne_id_in)

lemma findByIdAndDelete_gone:
  "distinct (map book_id bs) \<Longrightarrow> i \<notin> book_id ` set (findByIdAndDelete i bs)"
  by (induction bs) auto

lemma save_ids: "map book_id (save now b d bs) = map book_id bs"
  by (auto simp: save_def updateOne_ids)

lemma save_persists:
  assumes "distinct (map book_id bs)" and "findOne i u bs = Some b"
    and "book_id d = i" and "owner d = u"
  shows "findOne i u (save now b d bs) = Some (if d = b then d else d\<lparr>updatedAt := now\<rparr>)"
  using assms findOne_updateOne [OF assms(1,2), of "if d = b then d else d\<lparr>updatedAt := now\<rparr>"]
  by (auto simp: save_def)

lemma save_others:
  assumes "distinct (map book_id bs)" and "findOne i u bs = Some b"
    and "book_id d = i" and "owner d = u"
  shows "filter (\<lambda>x. owner x \<noteq> u) (save now b d bs) = filter (\<lambda>x. owner x \<noteq> u) bs"
  using assms updateOne_others [OF assms(1,2), of "if d = b then d else d\<lparr>updatedAt := now\<rparr>"]
  by (auto simp: save_def)

lemma save_unchanged:
  "findOne i u bs = Some b \<Longrightarrow> distinct (map book_id bs) \<Longrightarrow> save now b b bs = bs"
  using updateOne_same findOne_SomeD by (fastforce simp: save_def)


lemma save_persists_stamp:
  assumes "distinct (map book_id bs)" and "findOne i u bs = Some b"
    and "book_id d = i" and "owner d = u"
  shows "findOne i u (save now b d bs) =
           Some (d\<lparr>updatedAt := (if d = b then updatedAt d else now)\<rparr>)"
proof -
  have "(if d = b then d else d\<lparr>updatedAt := now\<rparr>) =
        d\<lparr>updatedAt := (if d = b then updatedAt d else now)\<rparr>"
    by (cases "d = b") simp_all
  with save_persists [OF assms, of now] show ?thesis by simp
qed

lemma currentPage_update_same: "currentPage x = p \<Longrightarrow> x\<lparr>currentPage := p\<rparr> = x"
  by auto

section \<open>Facts about the parsing helpers\<close>

lemma integerValue_of_int: "integerValue (Fin (of_int p)) = Some p"
  by simp

lemma integerValue_SomeD: "integerValue n = Some p \<Longrightarrow> n = Fin (of_int p)"
  by (cases n) (auto split: if_splits)

lemma parsePage_cong: "ToNumber v = ToNumber v' \<Longrightarrow> parsePage v = parsePage v'"
  by (simp add: parsePage_def)

lemma parseNonEmptyString_None:
  "parseNonEmptyString v = None \<longleftrightarrow> (\<forall>x. v = JString x \<longrightarrow> trim x = [])"
  by (cases v) (auto simp: Let_def)

lemma parseNonEmptyString_Some:
  "parseNonEmptyString v = Some w \<longleftrightarrow> (\<exists>x. v = JString x \<and> trim x = w \<and> w \<noteq> [])"
  by (cases v) (auto simp: Let_def)

section \<open>Facts about the example world\<close>

lemma env0_cast_b1: "castObjectId env0 id_b1 = Some 0xB1"
  by code_simp

lemma env0_cast_b2: "castObjectId env0 id_b2 = Some 0xB2"
  by code_simp

lemma env0_resolves: "db_query env0 = Resolves ()" "db_write env0 = Resolves ()"
  "cloudinary_destroy env0 = Resolves ()"
  by (simp_all add: env0_def)

lemma s0_book1: "findOne 0xB1 1 (books s0) = Some book1"
  by code_simp

lemma s0_distinct: "distinctIds s0"
  by code_simp

lemma book1_pages: "totalPages book1 = 10" "currentPage book1 = 5"
  by (simp_all add: book1_def)

lemma book1_percent: "progressPercentage (book1\<lparr>currentPage := 7\<rparr>) = Fin 70"
  by code_simp

lemma env0_cast_a1: "castObjectId env0 id_a1 = Some 0xA1"
  by code_simp

lemma env0_cast_c1: "castObjectId env0 id_c1 = Some 0xC1"
  by code_simp

lemma book1_vocab: "find (\<lambda>x. vocab_id x = 0xA1) (vocabulary book1) = Some ubiquitous"
  by code_simp

lemma book1_note: "find (\<lambda>x. note_id x = 0xC1) (bookNotes book1) = Some point"
  by code_simp

lemma book1_vocabulary: "vocabulary book1 = [ubiquitous, widespread]"
  by (simp add: book1_def)

lemma vocab_distinct: "ubiquitous \<noteq> widespread"
  by code_simp

lemma parse_omnipresent: "parseNonEmptyString (JString (str '' omnipresent '')) = Some (str ''omnipresent'')"
  by code_simp

lemma parse_everywhere: "parseNonEmptyString (JString (str '' everywhere '')) = Some (str ''everywhere'')"
  by code_simp

lemma parse_blank: "parseNonEmptyString (JString (str ''   '')) = None"
  by code_simp

section \<open>Login\<close>

text \<open>
  C6. A login naming an unregistered e-mail and a login naming a registered e-mail with
  a wrong password get the same response; when the user query resolves it is status 400
  with the one message \<open>Invalid login credentials.\<close>
\<close>

theorem login_same_failure:
  assumes "find (\<lambda>u. email u = toLowerCase env (trim e1)) (users s) = None"
    and "find (\<lambda>u. email u = toLowerCase env (trim e2)) (users s) = Some u"
    and "\<not> bcrypt_compare env p2 (password u)"
  shows "login env s (JString e1) (JString p1) = login env s (JString e2) (JString p2)
       \<and> (db_query env = Resolves () \<longrightarrow>
            login env s (JString e1) (JString p1) = respond 400 (Error ''Invalid login credentials.''))"
  using assms by (simp add: login_def split: outcome.splits)

theorem login_same_failure_witness:
  "login env0 s0 (JString (str ''carol@example.com'')) (JString (str ''guess''))
     = login env0 s0 (JString (str '' Alice@Example.com '')) (JString (str ''guess''))
   \<and> login env0 s0 (JString (str ''carol@example.com'')) (JString (str ''guess''))
     = respond 400 (Error ''Invalid login credentials.'')"
proof -
  have unknown: "find (\<lambda>u. email u = toLowerCase env0 (trim (str ''carol@example.com''))) (users s0) = None"
    by code_simp
  have known: "find (\<lambda>u. email u = toLowerCase env0 (trim (str '' Alice@Example.com ''))) (users s0) = Some alice"
    by code_simp
  have wrong: "\<not> bcrypt_compare env0 (str ''guess'') (password alice)"
    by code_simp
  have db: "db_query env0 = Resolves ()"
    by (simp add: env0_def)
  from login_same_failure [OF unknown known wrong, where ?p1.0 = "str ''guess''"] db
  show ?thesis by blast
qed

lemma updateProgress_success_cases:
  assumes "updateProgress env s u bookId page = (r, s')" and "status r = 200"
  obtains i p b where "castObjectId env bookId = Some i" and "parsePage page = Inr (Some p)"
    and "0 \<le> p" and "db_query env = Resolves ()" and "findOne i u (books s) = Some b"
    and "\<not> (0 < totalPages b \<and> totalPages b < p)" and "db_write env = Resolves ()"
    and "r = respond 200 (Progress p (progressPercentage (b\<lparr>currentPage := p\<rparr>)))"
    and "s' = s\<lparr>books := save (Date_now env) b (b\<lparr>currentPage := p\<rparr>) (books s)\<rparr>"
proof (cases "castObjectId env bookId")
  case None
  with assms show ?thesis by (auto simp: updateProgress_def respond_def)
next
  case (Some i)
  note i = this
  show ?thesis
  proof (cases "parsePage page")
    case (Inl e)
    with assms i show ?thesis by (auto simp: updateProgress_def respond_def)
  next
    case (Inr po)
    show ?thesis
    proof (cases po)
      case None
      with assms i Inr show ?thesis by (auto simp: updateProgress_def respond_def)
    next
      case (Some p)
      note p = Inr [unfolded Some]
      show ?thesis
      proof (cases "p < 0")
        case True
        with assms i p show ?thesis by (auto simp: updateProgress_def respond_def)
      next
        case False
        note nonneg = this
        show ?thesis
        proof (cases "db_query env")
          case Rejects
          with assms i p nonneg show ?thesis by (auto simp: updateProgress_def respond_def)
        next
          case (Resolves x)
          note q = this
          show ?thesis
          proof (cases "findOne i u (books s)")
            case None
            with assms i p nonneg q show ?thesis by (auto simp: updateProgress_def respond_def)
          next
            case (Some b)
            note b = this
            show ?thesis
            proof (cases "0 < totalPages b \<and> totalPages b < p")
              case True
              with assms i p nonneg q b show ?thesis by (auto simp: updateProgress_def respond_def)
            next
              case False
              note inrange = this
              show ?thesis
              proof (cases "db_write env")
                case Rejects
                with assms i p nonneg q b inrange show ?thesis
                  by (auto simp: updateProgress_def respond_def)
              next
                case (Resolves y)
                with assms i p nonneg q b inrange that [of i p b] show ?thesis
                  by (auto simp: updateProgress_def Let_def)
              qed
            qed
          qed
        qed
      qed
    qed
  qed
qed

section \<open>Reading progress\<close>

lemma progressPercentage_pages:
  "currentPage b = currentPage b' \<Longrightarrow> totalPages b = totalPages b' \<Longrightarrow>
   progressPercentage b = progressPercentage b'"
  by (simp add: progressPercentage_def)

lemma updateProgress_cong:
  "ToNumber v = ToNumber v' \<Longrightarrow> updateProgress env s u bookId v = updateProgress env s u bookId v'"
  using parsePage_cong [of v v'] by (simp add: updateProgress_def split: option.splits)

lemma updateProgress_rejects:
  assumes "ToNumber page = Inr n"
    and "integerValue n = None \<or> (\<exists>p. integerValue n = Some p \<and> p < 0)"
  shows "status (fst (updateProgress env s u bookId page)) = 400
       \<and> snd (updateProgress env s u bookId page) = s"
  using assms by (auto simp: updateProgress_def parsePage_def respond_def split: option.splits)

lemma updateProgress_rejects_message:
  assumes "ToNumber page = Inr n"
    and "integerValue n = None \<or> (\<exists>p. integerValue n = Some p \<and> p < 0)"
    and "castObjectId env bookId = Some i"
  shows "updateProgress env s u bookId page =
           (respond 400 (Error ''Page must be a non-negative integer.''), s)"
  using assms by (auto simp: updateProgress_def parsePage_def split: option.splits)


lemma parsePage_Inr: "ToNumber page = Inr n \<Longrightarrow> parsePage page = Inr (integerValue n)"
  by (simp add: parsePage_def)

lemma updateProgress_parsed:
  assumes "parsePage page = Inr (Some p)" and "0 \<le> p"
    and "castObjectId env bookId = Some i" and "db_query env = Resolves ()"
    and "findOne i u (books s) = Some b" and "\<not> (0 < totalPages b \<and> totalPages b < p)"
    and "db_write env = Resolves ()"
  shows "updateProgress env s u bookId page =
           (respond 200 (Progress p (progressPercentage (b\<lparr>currentPage := p\<rparr>))),
            s\<lparr>books := save (Date_now env) b (b\<lparr>currentPage := p\<rparr>) (books s)\<rparr>)"
  using assms by (auto simp: updateProgress_def Let_def)

lemma updateProgress_accepts:
  assumes "ToNumber page = Inr n" and "integerValue n = Some p" and "0 \<le> p"
    and "castObjectId env bookId = Some i" and "db_query env = Resolves ()"
    and "findOne i u (books s) = Some b" and "\<not> (0 < totalPages b \<and> totalPages b < p)"
    and "db_write env = Resolves ()"
  shows "updateProgress env s u bookId page =
           (respond 200 (Progress p (progressPercentage (b\<lparr>currentPage := p\<rparr>))),
            s\<lparr>books := save (Date_now env) b (b\<lparr>currentPage := p\<rparr>) (books s)\<rparr>)"
  using assms parsePage_Inr [of page n] by (intro updateProgress_parsed) simp_all




text \<open>
  C7. For a Book found for the user whose pages satisfy the invariant, a request with
  the Book's own current page succeeds with the percentage the Book already had and
  leaves the state as it was; and any successful request, sent again to the state it left,
  gives the same response and the same state.
\<close>

theorem updateProgress_idempotent:
  assumes "distinctIds s" and "castObjectId env bookId = Some i"
    and "db_query env = Resolves ()" and "db_write env = Resolves ()"
    and "findOne i u (books s) = Some b"
  shows "(pagesOk b \<longrightarrow>
            updateProgress env s u bookId (JNumber (Fin (of_int (currentPage b)))) =
              (respond 200 (Progress (currentPage b) (progressPercentage b)), s))
       \<and> (\<forall>r s'. updateProgress env s u bookId page = (r, s') \<and> status r = 200 \<longrightarrow>
             updateProgress env s' u bookId page = (r, s'))"
proof (intro conjI impI allI)
  assume ok: "pagesOk b"
  have same: "b\<lparr>currentPage := currentPage b\<rparr> = b" by simp
  have "updateProgress env s u bookId (JNumber (Fin (of_int (currentPage b)))) =
          (respond 200 (Progress (currentPage b) (progressPercentage (b\<lparr>currentPage := currentPage b\<rparr>))),
           s\<lparr>books := save (Date_now env) b (b\<lparr>currentPage := currentPage b\<rparr>) (books s)\<rparr>)"
    using assms ok
    by (intro updateProgress_accepts [where n = "Fin (of_int (currentPage b))" and i = i])
       (auto simp: pagesOk_def)
  moreover have "save (Date_now env) b b (books s) = books s"
    using assms save_unchanged by (simp add: distinctIds_def)
  ultimately show "updateProgress env s u bookId (JNumber (Fin (of_int (currentPage b)))) =
      (respond 200 (Progress (currentPage b) (progressPercentage b)), s)"
    by (simp add: same)
next
  fix r s'
  assume "updateProgress env s u bookId page = (r, s') \<and> status r = 200"
  then have run: "updateProgress env s u bookId page = (r, s')" and ok: "status r = 200"
    by simp_all
  from run ok obtain i' p b' where
    c: "castObjectId env bookId = Some i'" and p: "parsePage page = Inr (Some p)" and
    nonneg: "0 \<le> p" and f: "findOne i' u (books s) = Some b'" and
    range: "\<not> (0 < totalPages b' \<and> totalPages b' < p)" and
    r: "r = respond 200 (Progress p (progressPercentage (b'\<lparr>currentPage := p\<rparr>)))" and
    s': "s' = s\<lparr>books := save (Date_now env) b' (b'\<lparr>currentPage := p\<rparr>) (books s)\<rparr>"
    by (rule updateProgress_success_cases)
  from c f assms have [simp]: "i' = i" "b' = b" by simp_all
  let ?d = "b\<lparr>currentPage := p\<rparr>"
  let ?b2 = "?d\<lparr>updatedAt := (if ?d = b then updatedAt ?d else Date_now env)\<rparr>"
  have ids: "distinct (map book_id (books s'))"
    using assms(1) by (simp add: s' save_ids distinctIds_def)
  have found: "findOne i u (books s') = Some ?b2"
    using assms findOne_SomeD [of i u "books s" b]
      save_persists_stamp [of "books s" i u b ?d "Date_now env"]
    by (simp add: s' distinctIds_def)
  have cur: "?b2\<lparr>currentPage := p\<rparr> = ?b2"
    by (rule currentPage_update_same) (simp cong: if_weak_cong)
  have tot: "totalPages ?b2 = totalPages b"
    by (simp cong: if_weak_cong)
  have pct: "progressPercentage ?b2 = progressPercentage ?d"
    by (rule progressPercentage_pages) (simp_all cong: if_weak_cong)
  have unchanged: "save (Date_now env) ?b2 ?b2 (books s') = books s'"
    using found ids by (rule save_unchanged)
  have range': "\<not> (0 < totalPages ?b2 \<and> totalPages ?b2 < p)"
    using range by (simp only: tot) simp
  have "updateProgress env s' u bookId page =
          (respond 200 (Progress p (progressPercentage (?b2\<lparr>currentPage := p\<rparr>))),
           s'\<lparr>books := save (Date_now env) ?b2 (?b2\<lparr>currentPage := p\<rparr>) (books s')\<rparr>)"
    using p nonneg assms(2,3) found range' assms(4) by (rule updateProgress_parsed)
  also have "\<dots> = (respond 200 (Progress p (progressPercentage ?d)), s'\<lparr>books := books s'\<rparr>)"
    by (simp only: cur unchanged pct)
  also have "\<dots> = (r, s')"
    by (simp add: r)
  finally show "updateProgress env s' u bookId page = (r, s')" .
qed

text \<open>
  C9. The handler sees the page only through \<^verbatim>\<open>Number(page)\<close>: two values with the same
  coercion are treated alike, so the string \<^verbatim>\<open>"5"\<close> is treated as the number 5 and
  \<^verbatim>\<open>true\<close> as the number 1. A value whose coercion is a non-negative integer in range
  is accepted; a value whose coercion is not an integer is rejected with status 400.
\<close>

theorem updateProgress_Number_coercion:
  "(ToNumber page = ToNumber page' \<longrightarrow>
      updateProgress env s u bookId page = updateProgress env s u bookId page')
   \<and> updateProgress env s u bookId (JString (str ''5''))
       = updateProgress env s u bookId (JNumber (Fin 5))
   \<and> updateProgress env s u bookId (JBoolean True)
       = updateProgress env s u bookId (JNumber (Fin 1))
   \<and> (\<forall>n p i b. ToNumber page = Inr n \<and> integerValue n = Some p \<and> 0 \<le> p
         \<and> castObjectId env bookId = Some i \<and> db_query env = Resolves ()
         \<and> findOne i u (books s) = Some b \<and> \<not> (0 < totalPages b \<and> totalPages b < p)
         \<and> db_write env = Resolves () \<longrightarrow>
         fst (updateProgress env s u bookId page) =
           respond 200 (Progress p (progressPercentage (b\<lparr>currentPage := p\<rparr>))))
   \<and> (\<forall>n. ToNumber page = Inr n \<and> integerValue n = None \<longrightarrow>
         status (fst (updateProgress env s u bookId page)) = 400
       \<and> snd (updateProgress env s u bookId page) = s
       \<and> (castObjectId env bookId \<noteq> None \<longrightarrow>
            fst (updateProgress env s u bookId page) =
              respond 400 (Error ''Page must be a non-negative integer.'')))"
proof -
  have five: "ToNumber (JString (str ''5'')) = ToNumber (JNumber (Fin 5))"
    by code_simp
  have one: "ToNumber (JBoolean True) = ToNumber (JNumber (Fin 1))"
    by simp
  have accepted: "fst (updateProgress env s u bookId page) =
           respond 200 (Progress p (progressPercentage (b\<lparr>currentPage := p\<rparr>)))"
    if "ToNumber page = Inr n \<and> integerValue n = Some p \<and> 0 \<le> p
         \<and> castObjectId env bookId = Some i \<and> db_query env = Resolves ()
         \<and> findOne i u (books s) = Some b \<and> \<not> (0 < totalPages b \<and> totalPages b < p)
         \<and> db_write env = Resolves ()" for n p i b
    using that updateProgress_accepts [of page n p env bookId i u s b] by simp
  have rejected: "status (fst (updateProgress env s u bookId page)) = 400
       \<and> snd (updateProgress env s u bookId page) = s
       \<and> (castObjectId env bookId \<noteq> None \<longrightarrow>
            fst (updateProgress env s u bookId page) =
              respond 400 (Error ''Page must be a non-negative integer.''))"
    if "ToNumber page = Inr n \<and> integerValue n = None" for n
    using that updateProgress_rejects [of page n env s u bookId]
      updateProgress_rejects_message [of page n env bookId _ s u]
    by auto
  show ?thesis
    using updateProgress_cong [of page page'] updateProgress_cong [OF five]
      updateProgress_cong [OF one] accepted rejected
    by blast
qed



theorem updateProgress_idempotent_witness:
  "updateProgress env0 s0 1 id_b1 (JNumber (Fin 5)) = (respond 200 (Progress 5 (Fin 50)), s0)
   \<and> updateProgress env0 (snd (updateProgress env0 s0 1 id_b1 (JNumber (Fin 7)))) 1 id_b1 (JNumber (Fin 7))
       = updateProgress env0 s0 1 id_b1 (JNumber (Fin 7))
   \<and> status (fst (updateProgress env0 s0 1 id_b1 (JNumber (Fin 7)))) = 200"
proof -
  have ok: "pagesOk book1" by code_simp
  have pct: "progressPercentage book1 = Fin 50" by code_simp
  have ok7: "status (fst (updateProgress env0 s0 1 id_b1 (JNumber (Fin 7)))) = 200" by code_simp
  note T = updateProgress_idempotent [OF s0_distinct env0_cast_b1 env0_resolves(1,2) s0_book1]
  from T [of "JNumber (Fin 7)"] ok
  have "updateProgress env0 s0 1 id_b1 (JNumber (Fin (of_int (currentPage book1)))) =
          (respond 200 (Progress (currentPage book1) (progressPercentage book1)), s0)"
    by blast
  then have a: "updateProgress env0 s0 1 id_b1 (JNumber (Fin 5)) = (respond 200 (Progress 5 (Fin 50)), s0)"
    by (simp add: book1_pages pct)
  from T [of "JNumber (Fin 7)"] ok7
  have b: "updateProgress env0 (snd (updateProgress env0 s0 1 id_b1 (JNumber (Fin 7)))) 1 id_b1 (JNumber (Fin 7))
       = updateProgress env0 s0 1 id_b1 (JNumber (Fin 7))"
    by (metis prod.collapse)
  from a b ok7 show ?thesis by blast
qed

theorem updateProgress_Number_coercion_witness:
  "updateProgress env0 s0 1 id_b1 (JString (str ''5'')) = updateProgress env0 s0 1 id_b1 (JNumber (Fin 5))
   \<and> updateProgress env0 s0 1 id_b1 (JBoolean True) = updateProgress env0 s0 1 id_b1 (JNumber (Fin 1))
   \<and> updateProgress env0 s0 1 id_b1 (JString (str '' 7e0 '')) = updateProgress env0 s0 1 id_b1 (JNumber (Fin 7))
   \<and> fst (updateProgress env0 s0 1 id_b1 (JString (str '' 7e0 ''))) = respond 200 (Progress 7 (Fin 70))
   \<and> updateProgress env0 s0 1 id_b1 (JString (str ''five'')) =
        (respond 400 (Error ''Page must be a non-negative integer.''), s0)"
proof -
  have n7: "ToNumber (JString (str '' 7e0 '')) = ToNumber (JNumber (Fin 7))" by code_simp
  have n7': "ToNumber (JString (str '' 7e0 '')) = Inr (Fin 7)" by code_simp
  have seven: "integerValue (Fin 7) = Some 7" by code_simp
  have nan: "ToNumber (JString (str ''five'')) = Inr NaN" by code_simp
  note T = updateProgress_Number_coercion [of _ _ env0 s0 1 id_b1]
  from T have a: "updateProgress env0 s0 1 id_b1 (JString (str ''5'')) = updateProgress env0 s0 1 id_b1 (JNumber (Fin 5))"
    and b: "updateProgress env0 s0 1 id_b1 (JBoolean True) = updateProgress env0 s0 1 id_b1 (JNumber (Fin 1))"
    by blast+
  from T [of "JString (str '' 7e0 '')" "JNumber (Fin 7)"] n7
  have c: "updateProgress env0 s0 1 id_b1 (JString (str '' 7e0 '')) = updateProgress env0 s0 1 id_b1 (JNumber (Fin 7))"
    by blast
  from T [of "JString (str '' 7e0 '')" "JNull"]
  have "fst (updateProgress env0 s0 1 id_b1 (JString (str '' 7e0 ''))) =
          respond 200 (Progress 7 (progressPercentage (book1\<lparr>currentPage := 7\<rparr>)))"
    using n7' seven env0_cast_b1 env0_resolves s0_book1 by (simp add: book1_pages)
  then have d: "fst (updateProgress env0 s0 1 id_b1 (JString (str '' 7e0 ''))) = respond 200 (Progress 7 (Fin 70))"
    by (simp add: book1_percent)
  from T [of "JString (str ''five'')" "JNull"] nan env0_cast_b1
  have e: "updateProgress env0 s0 1 id_b1 (JString (str ''five'')) =
        (respond 400 (Error ''Page must be a non-negative integer.''), s0)"
    by (simp add: prod_eq_iff)
  from a b c d e show ?thesis by blast
qed

section \<open>Editing vocabulary and notes\<close>

lemma updateFirst_split:
  "find P xs = Some v \<Longrightarrow>
   \<exists>ys zs. xs = ys @ v # zs \<and> (\<forall>y\<in>set ys. \<not> P y) \<and> updateFirst P v' xs = ys @ v' # zs"
proof (induction xs)
  case Nil
  then show ?case by simp
next
  case (Cons x xs)
  show ?case
  proof (cases "P x")
    case True
    with Cons.prems have "x = v" by simp
    with True show ?thesis by (intro exI [of _ "[]"] exI [of _ xs]) simp
  next
    case False
    with Cons obtain ys zs where "xs = ys @ v # zs" "\<forall>y\<in>set ys. \<not> P y"
      "updateFirst P v' xs = ys @ v' # zs" by auto
    with False show ?thesis by (intro exI [of _ "x # ys"] exI [of _ zs]) simp
  qed
qed

lemma patchVocab_simps:
  "patchVocab (Some w) None v = v\<lparr>word := w\<rparr>"
  "patchVocab None (Some d) v = v\<lparr>vdefinition := d\<rparr>"
  "patchVocab (Some w) (Some d) v = v\<lparr>word := w, vdefinition := d\<rparr>"
  "patchVocab None None v = v"
  by (simp_all add: patchVocab_def)

lemma patchNote_simps:
  "patchNote (Some t) None n = n\<lparr>note_title := t\<rparr>"
  "patchNote None (Some c) n = n\<lparr>content := c\<rparr>"
  "patchNote (Some t) (Some c) n = n\<lparr>note_title := t, content := c\<rparr>"
  "patchNote None None n = n"
  by (simp_all add: patchNote_def)

lemma updateVocab_found:
  assumes "castObjectId env bookId = Some i" and "castObjectId env vocabId = Some vi"
    and "db_query env = Resolves ()" and "db_write env = Resolves ()"
    and "findOne i u (books s) = Some b"
    and "find (\<lambda>x. vocab_id x = vi) (vocabulary b) = Some v"
    and "parseNonEmptyString word_field \<noteq> None \<or> parseNonEmptyString definition_field \<noteq> None"
  shows "updateVocab env s u bookId vocabId word_field definition_field =
    (respond 200 (VocabJson (patchVocab (parseNonEmptyString word_field) (parseNonEmptyString definition_field) v)),
     s\<lparr>books := save (Date_now env) b
        (b\<lparr>vocabulary := updateFirst (\<lambda>x. vocab_id x = vi)
             (patchVocab (parseNonEmptyString word_field) (parseNonEmptyString definition_field) v)
             (vocabulary b)\<rparr>) (books s)\<rparr>)"
  using assms by (auto simp: updateVocab_def Let_def)

lemma updateNote_found:
  assumes "castObjectId env bookId = Some i" and "castObjectId env noteId = Some ni"
    and "db_query env = Resolves ()" and "db_write env = Resolves ()"
    and "findOne i u (books s) = Some b"
    and "find (\<lambda>x. note_id x = ni) (bookNotes b) = Some n"
    and "parseNonEmptyString title_field \<noteq> None \<or> parseNonEmptyString content_field \<noteq> None"
  shows "updateNote env s u bookId noteId title_field content_field =
    (respond 200 (NoteJson (patchNote (parseNonEmptyString title_field) (parseNonEmptyString content_field) n)),
     s\<lparr>books := save (Date_now env) b
        (b\<lparr>bookNotes := updateFirst (\<lambda>x. note_id x = ni)
             (patchNote (parseNonEmptyString title_field) (parseNonEmptyString content_field) n)
             (bookNotes b)\<rparr>) (books s)\<rparr>)"
  using assms by (auto simp: updateNote_def Let_def)

lemma updateVocab_required_iff:
  assumes "castObjectId env bookId \<noteq> None" and "castObjectId env vocabId \<noteq> None"
  shows "fst (updateVocab env s u bookId vocabId word_field definition_field) =
           respond 400 (Error ''At least one of word or definition is required.'')
         \<longleftrightarrow> parseNonEmptyString word_field = None \<and> parseNonEmptyString definition_field = None"
  using assms
  by (auto simp: updateVocab_def Let_def respond_def split: option.splits outcome.splits)

lemma updateVocab_required_only_if:
  "fst (updateVocab env s u bookId vocabId word_field definition_field) =
           respond 400 (Error ''At least one of word or definition is required.'')
   \<Longrightarrow> parseNonEmptyString word_field = None \<and> parseNonEmptyString definition_field = None"
  by (auto simp: updateVocab_def Let_def respond_def split: option.splits outcome.splits if_splits)

lemma updateNote_required_iff:
  assumes "castObjectId env bookId \<noteq> None" and "castObjectId env noteId \<noteq> None"
  shows "fst (updateNote env s u bookId noteId title_field content_field) =
           respond 400 (Error ''At least one of title or content is required.'')
         \<longleftrightarrow> parseNonEmptyString title_field = None \<and> parseNonEmptyString content_field = None"
  using assms
  by (auto simp: updateNote_def Let_def respond_def split: option.splits outcome.splits)

lemma updateNote_required_only_if:
  "fst (updateNote env s u bookId noteId title_field content_field) =
           respond 400 (Error ''At least one of title or content is required.'')
   \<Longrightarrow> parseNonEmptyString title_field = None \<and> parseNonEmptyString content_field = None"
  by (auto simp: updateNote_def Let_def respond_def split: option.splits outcome.splits if_splits)

text \<open>
  C8. When the Book and the entry are found and the awaited calls resolve, the entry is
  replaced in its place by the entry patched with the supplied fields, the entries before
  and after it stay as they were, and the response carries the patched entry. The patched
  entry keeps its \<^verbatim>\<open>_id\<close>; its word is the supplied word if one is supplied and the stored
  word otherwise, and likewise its definition: supplying only a word leaves the definition
  as stored, supplying only a definition leaves the word as stored, and supplying both
  replaces both.
\<close>

theorem updateVocab_frame:
  assumes "castObjectId env bookId = Some i" and "castObjectId env vocabId = Some vi"
    and "db_query env = Resolves ()" and "db_write env = Resolves ()"
    and "findOne i u (books s) = Some b"
    and "find (\<lambda>x. vocab_id x = vi) (vocabulary b) = Some v"
    and "parseNonEmptyString word_field = w" and "parseNonEmptyString definition_field = d"
    and "w \<noteq> None \<or> d \<noteq> None"
  shows "(\<exists>ys zs. vocabulary b = ys @ v # zs
          \<and> updateVocab env s u bookId vocabId word_field definition_field =
              (respond 200 (VocabJson (patchVocab w d v)),
               s\<lparr>books := save (Date_now env) b (b\<lparr>vocabulary := ys @ patchVocab w d v # zs\<rparr>) (books s)\<rparr>)
          \<and> (distinctIds s \<longrightarrow>
               (\<exists>b'. findOne i u (books (snd (updateVocab env s u bookId vocabId word_field definition_field))) = Some b'
                  \<and> vocabulary b' = ys @ patchVocab w d v # zs
                  \<and> bookNotes b' = bookNotes b \<and> currentPage b' = currentPage b
                  \<and> totalPages b' = totalPages b \<and> title b' = title b)))
       \<and> vocab_id (patchVocab w d v) = vocab_id v
       \<and> (\<forall>x. w = Some x \<and> d = None \<longrightarrow> patchVocab w d v = v\<lparr>word := x\<rparr>
              \<and> vdefinition (patchVocab w d v) = vdefinition v)
       \<and> (\<forall>x. w = None \<and> d = Some x \<longrightarrow> patchVocab w d v = v\<lparr>vdefinition := x\<rparr>
              \<and> word (patchVocab w d v) = word v)
       \<and> (\<forall>x y. w = Some x \<and> d = Some y \<longrightarrow>
              patchVocab w d v = \<lparr>vocab_id = vocab_id v, word = x, vdefinition = y\<rparr>)
       \<and> patchVocab w d v =
            \<lparr>vocab_id = vocab_id v,
             word = (case w of Some x \<Rightarrow> x | None \<Rightarrow> word v),
             vdefinition = (case d of Some y \<Rightarrow> y | None \<Rightarrow> vdefinition v)\<rparr>"
proof -
  let ?v' = "patchVocab w d v"
  from updateFirst_split [OF assms(6), of ?v'] obtain ys zs where
    split: "vocabulary b = ys @ v # zs"
    and upd: "updateFirst (\<lambda>x. vocab_id x = vi) ?v' (vocabulary b) = ys @ ?v' # zs"
    by blast
  let ?d = "b\<lparr>vocabulary := ys @ ?v' # zs\<rparr>"
  have run: "updateVocab env s u bookId vocabId word_field definition_field =
      (respond 200 (VocabJson ?v'), s\<lparr>books := save (Date_now env) b ?d (books s)\<rparr>)"
    using updateVocab_found [OF assms(1-6), of word_field definition_field] assms(7-9) upd
    by simp
  have stored: "\<exists>b'. findOne i u (books (snd (updateVocab env s u bookId vocabId word_field definition_field))) = Some b'
                  \<and> vocabulary b' = ys @ ?v' # zs
                  \<and> bookNotes b' = bookNotes b \<and> currentPage b' = currentPage b
                  \<and> totalPages b' = totalPages b \<and> title b' = title b"
    if "distinctIds s"
  proof -
    have "findOne i u (save (Date_now env) b ?d (books s)) =
            Some (?d\<lparr>updatedAt := (if ?d = b then updatedAt ?d else Date_now env)\<rparr>)"
      using that assms(5) findOne_SomeD [OF assms(5)]
      by (intro save_persists_stamp) (simp_all add: distinctIds_def)
    then show ?thesis by (simp add: run)
  qed
  have frame: "\<exists>ys zs. vocabulary b = ys @ v # zs
          \<and> updateVocab env s u bookId vocabId word_field definition_field =
              (respond 200 (VocabJson ?v'),
               s\<lparr>books := save (Date_now env) b (b\<lparr>vocabulary := ys @ ?v' # zs\<rparr>) (books s)\<rparr>)
          \<and> (distinctIds s \<longrightarrow>
               (\<exists>b'. findOne i u (books (snd (updateVocab env s u bookId vocabId word_field definition_field))) = Some b'
                  \<and> vocabulary b' = ys @ ?v' # zs
                  \<and> bookNotes b' = bookNotes b \<and> currentPage b' = currentPage b
                  \<and> totalPages b' = totalPages b \<and> title b' = title b))"
    using split run stored by blast
  have id: "vocab_id ?v' = vocab_id v"
    by (simp add: patchVocab_def split: option.splits)
  have only_word: "\<forall>x. w = Some x \<and> d = None \<longrightarrow> ?v' = v\<lparr>word := x\<rparr> \<and> vdefinition ?v' = vdefinition v"
    by (auto simp: patchVocab_def)
  have only_definition: "\<forall>x. w = None \<and> d = Some x \<longrightarrow> ?v' = v\<lparr>vdefinition := x\<rparr> \<and> word ?v' = word v"
    by (auto simp: patchVocab_def)
  have whole: "?v' = \<lparr>vocab_id = vocab_id v,
             word = (case w of Some x \<Rightarrow> x | None \<Rightarrow> word v),
             vdefinition = (case d of Some y \<Rightarrow> y | None \<Rightarrow> vdefinition v)\<rparr>"
    by (cases v) (simp add: patchVocab_def split: option.splits)
  have both: "\<forall>x y. w = Some x \<and> d = Some y \<longrightarrow>
              ?v' = \<lparr>vocab_id = vocab_id v, word = x, vdefinition = y\<rparr>"
    using whole by auto
  from frame id only_word only_definition both whole show ?thesis
    by (intro conjI)
qed

theorem updateVocab_frame_witness:
  "fst (updateVocab env0 s0 1 id_b1 id_a1 (JString (str '' omnipresent '')) JUndefined) =
     respond 200 (VocabJson (ubiquitous\<lparr>word := str ''omnipresent''\<rparr>))
   \<and> (\<exists>b'. findOne 0xB1 1 (books (snd (updateVocab env0 s0 1 id_b1 id_a1
                (JString (str '' omnipresent '')) JUndefined))) = Some b'
         \<and> vocabulary b' = [ubiquitous\<lparr>word := str ''omnipresent''\<rparr>, widespread])
   \<and> vdefinition (ubiquitous\<lparr>word := str ''omnipresent''\<rparr>) = vdefinition ubiquitous
   \<and> fst (updateVocab env0 s0 1 id_b1 id_a1 (JString (str '' omnipresent '')) (JString (str '' everywhere ''))) =
     respond 200 (VocabJson \<lparr>vocab_id = 0xA1, word = str ''omnipresent'', vdefinition = str ''everywhere''\<rparr>)
   \<and> (\<exists>b'. findOne 0xB1 1 (books (snd (updateVocab env0 s0 1 id_b1 id_a1
                (JString (str '' omnipresent '')) (JString (str '' everywhere ''))))) = Some b'
         \<and> vocabulary b' =
              [\<lparr>vocab_id = 0xA1, word = str ''omnipresent'', vdefinition = str ''everywhere''\<rparr>, widespread])"
proof -
  have absent: "parseNonEmptyString JUndefined = None" by simp
  have some: "Some (str ''omnipresent'') \<noteq> None \<or> (None :: jsstring option) \<noteq> None" by simp
  have some2: "Some (str ''omnipresent'') \<noteq> None \<or> Some (str ''everywhere'') \<noteq> None" by simp
  have split_book1: "ys = [] \<and> zs = [widespread]" if "vocabulary book1 = ys @ ubiquitous # zs" for ys zs
    using that vocab_distinct by (auto simp: book1_vocabulary Cons_eq_append_conv)
  have a1: "vocab_id ubiquitous = 0xA1" by (simp add: ubiquitous_def)
  note T = updateVocab_frame [OF env0_cast_b1 env0_cast_a1 env0_resolves(1,2) s0_book1 book1_vocab
      parse_omnipresent absent some]
  have patched: "patchVocab (Some (str ''omnipresent'')) None ubiquitous = ubiquitous\<lparr>word := str ''omnipresent''\<rparr>"
    using T by blast
  from T obtain ys zs where
    split: "vocabulary book1 = ys @ ubiquitous # zs" and
    run: "updateVocab env0 s0 1 id_b1 id_a1 (JString (str '' omnipresent '')) JUndefined =
       (respond 200 (VocabJson (patchVocab (Some (str ''omnipresent'')) None ubiquitous)),
        s0\<lparr>books := save (Date_now env0) book1
           (book1\<lparr>vocabulary := ys @ patchVocab (Some (str ''omnipresent'')) None ubiquitous # zs\<rparr>) (books s0)\<rparr>)" and
    stored: "distinctIds s0 \<longrightarrow> (\<exists>b'. findOne 0xB1 1 (books (snd (updateVocab env0 s0 1 id_b1 id_a1
                (JString (str '' omnipresent '')) JUndefined))) = Some b'
         \<and> vocabulary b' = ys @ patchVocab (Some (str ''omnipresent'')) None ubiquitous # zs
         \<and> bookNotes b' = bookNotes book1 \<and> currentPage b' = currentPage book1
         \<and> totalPages b' = totalPages book1 \<and> title b' = title book1)"
    by blast
  from split have "ys = [] \<and> zs = [widespread]" by (rule split_book1)
  with run stored s0_distinct patched
  have one: "fst (updateVocab env0 s0 1 id_b1 id_a1 (JString (str '' omnipresent '')) JUndefined) =
     respond 200 (VocabJson (ubiquitous\<lparr>word := str ''omnipresent''\<rparr>))
   \<and> (\<exists>b'. findOne 0xB1 1 (books (snd (updateVocab env0 s0 1 id_b1 id_a1
                (JString (str '' omnipresent '')) JUndefined))) = Some b'
         \<and> vocabulary b' = [ubiquitous\<lparr>word := str ''omnipresent''\<rparr>, widespread])
   \<and> vdefinition (ubiquitous\<lparr>word := str ''omnipresent''\<rparr>) = vdefinition ubiquitous"
    by auto
  note B = updateVocab_frame [OF env0_cast_b1 env0_cast_a1 env0_resolves(1,2) s0_book1 book1_vocab
      parse_omnipresent parse_everywhere some2]
  have patched2: "patchVocab (Some (str ''omnipresent'')) (Some (str ''everywhere'')) ubiquitous =
      \<lparr>vocab_id = 0xA1, word = str ''omnipresent'', vdefinition = str ''everywhere''\<rparr>"
    using B a1 by auto
  from B obtain ys2 zs2 where
    split2: "vocabulary book1 = ys2 @ ubiquitous # zs2" and
    run2: "updateVocab env0 s0 1 id_b1 id_a1 (JString (str '' omnipresent '')) (JString (str '' everywhere '')) =
       (respond 200 (VocabJson (patchVocab (Some (str ''omnipresent'')) (Some (str ''everywhere'')) ubiquitous)),
        s0\<lparr>books := save (Date_now env0) book1
           (book1\<lparr>vocabulary := ys2 @ patchVocab (Some (str ''omnipresent'')) (Some (str ''everywhere'')) ubiquitous # zs2\<rparr>)
           (books s0)\<rparr>)" and
    stored2: "distinctIds s0 \<longrightarrow> (\<exists>b'. findOne 0xB1 1 (books (snd (updateVocab env0 s0 1 id_b1 id_a1
                (JString (str '' omnipresent '')) (JString (str '' everywhere ''))))) = Some b'
         \<and> vocabulary b' = ys2 @ patchVocab (Some (str ''omnipresent'')) (Some (str ''everywhere'')) ubiquitous # zs2
         \<and> bookNotes b' = bookNotes book1 \<and> currentPage b' = currentPage book1
         \<and> totalPages b' = totalPages book1 \<and> title b' = title book1)"
    by blast
  from split2 have "ys2 = [] \<and> zs2 = [widespread]" by (rule split_book1)
  with run2 stored2 s0_distinct
  have two: "fst (updateVocab env0 s0 1 id_b1 id_a1 (JString (str '' omnipresent '')) (JString (str '' everywhere ''))) =
     respond 200 (VocabJson \<lparr>vocab_id = 0xA1, word = str ''omnipresent'', vdefinition = str ''everywhere''\<rparr>)
   \<and> (\<exists>b'. findOne 0xB1 1 (books (snd (updateVocab env0 s0 1 id_b1 id_a1
                (JString (str '' omnipresent '')) (JString (str '' everywhere ''))))) = Some b'
         \<and> vocabulary b' =
              [\<lparr>vocab_id = 0xA1, word = str ''omnipresent'', vdefinition = str ''everywhere''\<rparr>, widespread])"
    unfolding patched2 by auto
  from one two show ?thesis by blast
qed

text \<open>
  C10. A field is parsed to absent exactly when it is not a string or trims to the empty
  string. In \<open>updateVocab\<close> and \<open>updateNote\<close>, with \<open>f\<close> absent and \<open>g\<close> present, the request
  succeeds and changes only the field \<open>g\<close> names, whichever of the two positions \<open>f\<close> is in.
  With well-formed ids, the response is the at-least-one-field error exactly when both
  fields are absent; with any ids, that error implies both are absent.
\<close>

theorem absent_field_keeps_value:
  "(parseNonEmptyString f = None \<longleftrightarrow> (\<forall>x. f = JString x \<longrightarrow> trim x = []))
   \<and> (\<forall>i vi b v d.
         castObjectId env bookId = Some i \<and> castObjectId env subId = Some vi
         \<and> db_query env = Resolves () \<and> db_write env = Resolves ()
         \<and> findOne i u (books s) = Some b
         \<and> find (\<lambda>x. vocab_id x = vi) (vocabulary b) = Some v
         \<and> parseNonEmptyString f = None \<and> parseNonEmptyString g = Some d \<longrightarrow>
           updateVocab env s u bookId subId f g =
             (respond 200 (VocabJson (v\<lparr>vdefinition := d\<rparr>)),
              s\<lparr>books := save (Date_now env) b
                 (b\<lparr>vocabulary := updateFirst (\<lambda>x. vocab_id x = vi) (v\<lparr>vdefinition := d\<rparr>) (vocabulary b)\<rparr>)
                 (books s)\<rparr>)
         \<and> updateVocab env s u bookId subId g f =
             (respond 200 (VocabJson (v\<lparr>word := d\<rparr>)),
              s\<lparr>books := save (Date_now env) b
                 (b\<lparr>vocabulary := updateFirst (\<lambda>x. vocab_id x = vi) (v\<lparr>word := d\<rparr>) (vocabulary b)\<rparr>)
                 (books s)\<rparr>))
   \<and> (\<forall>i ni b n d.
         castObjectId env bookId = Some i \<and> castObjectId env subId = Some ni
         \<and> db_query env = Resolves () \<and> db_write env = Resolves ()
         \<and> findOne i u (books s) = Some b
         \<and> find (\<lambda>x. note_id x = ni) (bookNotes b) = Some n
         \<and> parseNonEmptyString f = None \<and> parseNonEmptyString g = Some d \<longrightarrow>
           updateNote env s u bookId subId f g =
             (respond 200 (NoteJson (n\<lparr>content := d\<rparr>)),
              s\<lparr>books := save (Date_now env) b
                 (b\<lparr>bookNotes := updateFirst (\<lambda>x. note_id x = ni) (n\<lparr>content := d\<rparr>) (bookNotes b)\<rparr>)
                 (books s)\<rparr>)
         \<and> updateNote env s u bookId subId g f =
             (respond 200 (NoteJson (n\<lparr>note_title := d\<rparr>)),
              s\<lparr>books := save (Date_now env) b
                 (b\<lparr>bookNotes := updateFirst (\<lambda>x. note_id x = ni) (n\<lparr>note_title := d\<rparr>) (bookNotes b)\<rparr>)
                 (books s)\<rparr>))
   \<and> (castObjectId env bookId \<noteq> None \<and> castObjectId env subId \<noteq> None \<longrightarrow>
        (fst (updateVocab env s u bookId subId f g) =
           respond 400 (Error ''At least one of word or definition is required.'')
         \<longleftrightarrow> parseNonEmptyString f = None \<and> parseNonEmptyString g = None)
      \<and> (fst (updateNote env s u bookId subId f g) =
           respond 400 (Error ''At least one of title or content is required.'')
         \<longleftrightarrow> parseNonEmptyString f = None \<and> parseNonEmptyString g = None))
   \<and> (fst (updateVocab env s u bookId subId f g) =
           respond 400 (Error ''At least one of word or definition is required.'')
        \<longrightarrow> parseNonEmptyString f = None \<and> parseNonEmptyString g = None)
   \<and> (fst (updateNote env s u bookId subId f g) =
           respond 400 (Error ''At least one of title or content is required.'')
        \<longrightarrow> parseNonEmptyString f = None \<and> parseNonEmptyString g = None)"
proof (intro conjI allI impI)
  show "parseNonEmptyString f = None \<longleftrightarrow> (\<forall>x. f = JString x \<longrightarrow> trim x = [])"
    by (rule parseNonEmptyString_None)
next
  fix i vi b v d
  assume h: "castObjectId env bookId = Some i \<and> castObjectId env subId = Some vi
         \<and> db_query env = Resolves () \<and> db_write env = Resolves ()
         \<and> findOne i u (books s) = Some b
         \<and> find (\<lambda>x. vocab_id x = vi) (vocabulary b) = Some v
         \<and> parseNonEmptyString f = None \<and> parseNonEmptyString g = Some d"
  then show "updateVocab env s u bookId subId f g =
             (respond 200 (VocabJson (v\<lparr>vdefinition := d\<rparr>)),
              s\<lparr>books := save (Date_now env) b
                 (b\<lparr>vocabulary := updateFirst (\<lambda>x. vocab_id x = vi) (v\<lparr>vdefinition := d\<rparr>) (vocabulary b)\<rparr>)
                 (books s)\<rparr>)"
    using updateVocab_found [of env bookId i subId vi u s b v f g] by (simp add: patchVocab_simps)
  from h show "updateVocab env s u bookId subId g f =
             (respond 200 (VocabJson (v\<lparr>word := d\<rparr>)),
              s\<lparr>books := save (Date_now env) b
                 (b\<lparr>vocabulary := updateFirst (\<lambda>x. vocab_id x = vi) (v\<lparr>word := d\<rparr>) (vocabulary b)\<rparr>)
                 (books s)\<rparr>)"
    using updateVocab_found [of env bookId i subId vi u s b v g f] by (simp add: patchVocab_simps)
next
  fix i ni b n d
  assume h: "castObjectId env bookId = Some i \<and> castObjectId env subId = Some ni
         \<and> db_query env = Resolves () \<and> db_write env = Resolves ()
         \<and> findOne i u (books s) = Some b
         \<and> find (\<lambda>x. note_id x = ni) (bookNotes b) = Some n
         \<and> parseNonEmptyString f = None \<and> parseNonEmptyString g = Some d"
  then show "updateNote env s u bookId subId f g =
             (respond 200 (NoteJson (n\<lparr>content := d\<rparr>)),
              s\<lparr>books := save (Date_now env) b
                 (b\<lparr>bookNotes := updateFirst (\<lambda>x. note_id x = ni) (n\<lparr>content := d\<rparr>) (bookNotes b)\<rparr>)
                 (books s)\<rparr>)"
    using updateNote_found [of env bookId i subId ni u s b n f g] by (simp add: patchNote_simps)
  from h show "updateNote env s u bookId subId g f =
             (respond 200 (NoteJson (n\<lparr>note_title := d\<rparr>)),
              s\<lparr>books := save (Date_now env) b
                 (b\<lparr>bookNotes := updateFirst (\<lambda>x. note_id x = ni) (n\<lparr>note_title := d\<rparr>) (bookNotes b)\<rparr>)
                 (books s)\<rparr>)"
    using updateNote_found [of env bookId i subId ni u s b n g f] by (simp add: patchNote_simps)
next
  assume "castObjectId env bookId \<noteq> None \<and> castObjectId env subId \<noteq> None"
  then show "fst (updateVocab env s u bookId subId f g) =
           respond 400 (Error ''At least one of word or definition is required.'')
         \<longleftrightarrow> parseNonEmptyString f = None \<and> parseNonEmptyString g = None"
    and "fst (updateNote env s u bookId subId f g) =
           respond 400 (Error ''At least one of title or content is required.'')
         \<longleftrightarrow> parseNonEmptyString f = None \<and> parseNonEmptyString g = None"
    using updateVocab_required_iff [of env bookId subId s u f g]
      updateNote_required_iff [of env bookId subId s u f g] by simp_all
next
  assume "fst (updateVocab env s u bookId subId f g) =
           respond 400 (Error ''At least one of word or definition is required.'')"
  then show "parseNonEmptyString f = None" and "parseNonEmptyString g = None"
    using updateVocab_required_only_if by blast+
next
  assume "fst (updateNote env s u bookId subId f g) =
           respond 400 (Error ''At least one of title or content is required.'')"
  then show "parseNonEmptyString f = None" and "parseNonEmptyString g = None"
    using updateNote_required_only_if by blast+
qed

theorem absent_field_keeps_value_witness:
  "fst (updateVocab env0 s0 1 id_b1 id_a1 (JNumber (Fin 3)) (JString (str '' omnipresent ''))) =
     respond 200 (VocabJson (ubiquitous\<lparr>vdefinition := str ''omnipresent''\<rparr>))
   \<and> fst (updateNote env0 s0 1 id_b1 id_c1 (JString (str '' omnipresent '')) (JString (str ''   ''))) =
     respond 200 (NoteJson (point\<lparr>note_title := str ''omnipresent''\<rparr>))
   \<and> fst (updateVocab env0 s0 1 id_b1 id_a1 (JString (str ''   '')) JNull) =
     respond 400 (Error ''At least one of word or definition is required.'')
   \<and> fst (updateNote env0 s0 1 id_b1 id_c1 (JString (str ''   '')) JNull) =
     respond 400 (Error ''At least one of title or content is required.'')"
proof -
  note V = absent_field_keeps_value [of "JNumber (Fin 3)" env0 id_b1 id_a1 1 s0 "JString (str '' omnipresent '')",
      THEN conjunct2, THEN conjunct1, rule_format, of "0xB1" "0xA1" book1 ubiquitous "str ''omnipresent''"]
  have "parseNonEmptyString (JNumber (Fin 3)) = None" by simp
  with env0_cast_b1 env0_cast_a1 env0_resolves(1,2) s0_book1 book1_vocab parse_omnipresent
  have pre: "castObjectId env0 id_b1 = Some 0xB1 \<and> castObjectId env0 id_a1 = Some 0xA1
         \<and> db_query env0 = Resolves () \<and> db_write env0 = Resolves ()
         \<and> findOne 0xB1 1 (books s0) = Some book1
         \<and> find (\<lambda>x. vocab_id x = 0xA1) (vocabulary book1) = Some ubiquitous
         \<and> parseNonEmptyString (JNumber (Fin 3)) = None
         \<and> parseNonEmptyString (JString (str '' omnipresent '')) = Some (str ''omnipresent'')"
    by blast
  from V [OF pre, THEN conjunct1]
  have a: "fst (updateVocab env0 s0 1 id_b1 id_a1 (JNumber (Fin 3)) (JString (str '' omnipresent ''))) =
     respond 200 (VocabJson (ubiquitous\<lparr>vdefinition := str ''omnipresent''\<rparr>))"
    by (simp only: fst_conv)
  note N = absent_field_keeps_value [of "JString (str ''   '')" env0 id_b1 id_c1 1 s0 "JString (str '' omnipresent '')",
      THEN conjunct2, THEN conjunct2, THEN conjunct1, rule_format, of "0xB1" "0xC1" book1 point "str ''omnipresent''"]
  from env0_cast_b1 env0_cast_c1 env0_resolves(1,2) s0_book1 book1_note parse_omnipresent parse_blank
  have pre': "castObjectId env0 id_b1 = Some 0xB1 \<and> castObjectId env0 id_c1 = Some 0xC1
         \<and> db_query env0 = Resolves () \<and> db_write env0 = Resolves ()
         \<and> findOne 0xB1 1 (books s0) = Some book1
         \<and> find (\<lambda>x. note_id x = 0xC1) (bookNotes book1) = Some point
         \<and> parseNonEmptyString (JString (str ''   '')) = None
         \<and> parseNonEmptyString (JString (str '' omnipresent '')) = Some (str ''omnipresent'')"
    by blast
  from N [OF pre', THEN conjunct2]
  have b: "fst (updateNote env0 s0 1 id_b1 id_c1 (JString (str '' omnipresent '')) (JString (str ''   ''))) =
     respond 200 (NoteJson (point\<lparr>note_title := str ''omnipresent''\<rparr>))"
    by (simp only: fst_conv)
  have null: "parseNonEmptyString JNull = None" by simp
  have idsV: "castObjectId env0 id_b1 \<noteq> None \<and> castObjectId env0 id_a1 \<noteq> None"
    using env0_cast_b1 env0_cast_a1 by simp
  have idsN: "castObjectId env0 id_b1 \<noteq> None \<and> castObjectId env0 id_c1 \<noteq> None"
    using env0_cast_b1 env0_cast_c1 by simp
  from absent_field_keeps_value [of "JString (str ''   '')" env0 id_b1 id_a1 1 s0 JNull,
      THEN conjunct2, THEN conjunct2, THEN conjunct2, THEN conjunct1, rule_format, OF idsV, THEN conjunct1]
    parse_blank null
  have c: "fst (updateVocab env0 s0 1 id_b1 id_a1 (JString (str ''   '')) JNull) =
     respond 400 (Error ''At least one of word or definition is required.'')"
    by blast
  from absent_field_keeps_value [of "JString (str ''   '')" env0 id_b1 id_c1 1 s0 JNull,
      THEN conjunct2, THEN conjunct2, THEN conjunct2, THEN conjunct1, rule_format, OF idsN, THEN conjunct2]
    parse_blank null
  have d: "fst (updateNote env0 s0 1 id_b1 id_c1 (JString (str ''   '')) JNull) =
     respond 400 (Error ''At least one of title or content is required.'')"
    by blast
  from a b c d show ?thesis by blast
qed

section \<open>Deleting a Book\<close>

lemma findOne_findByIdAndDelete:
  "distinct (map book_id bs) \<Longrightarrow> findOne i u (findByIdAndDelete i bs) = None"
  using findByIdAndDelete_gone [of bs i] findOne_id_in [of i u "findByIdAndDelete i bs"]
  by (cases "findOne i u (findByIdAndDelete i bs)") auto

lemma destroyed_cloud: "public_id \<notin> set (cloud (destroyed public_id s))"
  by (simp add: destroyed_def)

lemma destroyed_books: "books (destroyed public_id s) = books s"
  by (simp add: destroyed_def)

lemma deleteBook_found:
  assumes "castObjectId env bookId = Some i" and "db_query env = Resolves ()"
    and "findOne i u (books s) = Some b"
  shows "deleteBook env s u bookId =
     (case cloudinary_destroy env of
        Rejects \<Rightarrow> (respond 500 (Error ''Delete failed.''), s)
      | Resolves _ \<Rightarrow>
          (case db_write env of
             Rejects \<Rightarrow> (respond 500 (Error ''Delete failed.''), destroyed (cloudinaryId b) s)
           | Resolves _ \<Rightarrow>
               (respond 200 (Message ''Book deleted.''),
                (destroyed (cloudinaryId b) s)\<lparr>books := findByIdAndDelete i (books s)\<rparr>)))"
  using assms by (simp add: deleteBook_def Let_def destroyed_books split: outcome.splits)

text \<open>
  C4. For a Book found for the user: if the destroy of the remote file rejects, the
  response is the failure (status 500) and the state is untouched, so the record stays;
  if it resolves, the file is gone from Cloudinary before the record is touched, which
  shows when the removal of the record then rejects: the response is again the failure,
  the record is still there and the file is not; if both resolve the response is 200,
  the file is gone and the record is no longer found. In every outcome, a record that is
  no longer found implies that its file is gone.
\<close>

theorem deleteBook_blob_before_record:
  assumes "castObjectId env bookId = Some i" and "db_query env = Resolves ()"
    and "findOne i u (books s) = Some b"
  shows "(cloudinary_destroy env = Rejects \<longrightarrow>
            deleteBook env s u bookId = (respond 500 (Error ''Delete failed.''), s))
       \<and> (cloudinary_destroy env = Resolves () \<and> db_write env = Rejects \<longrightarrow>
            fst (deleteBook env s u bookId) = respond 500 (Error ''Delete failed.'')
          \<and> findOne i u (books (snd (deleteBook env s u bookId))) = Some b
          \<and> cloudinaryId b \<notin> set (cloud (snd (deleteBook env s u bookId))))
       \<and> (cloudinary_destroy env = Resolves () \<and> db_write env = Resolves () \<longrightarrow>
            deleteBook env s u bookId =
              (respond 200 (Message ''Book deleted.''),
               (destroyed (cloudinaryId b) s)\<lparr>books := findByIdAndDelete i (books s)\<rparr>)
          \<and> cloudinaryId b \<notin> set (cloud (snd (deleteBook env s u bookId)))
          \<and> (distinctIds s \<longrightarrow> findOne i u (books (snd (deleteBook env s u bookId))) = None))
       \<and> (findOne i u (books (snd (deleteBook env s u bookId))) = None \<longrightarrow>
            cloudinaryId b \<notin> set (cloud (snd (deleteBook env s u bookId)))
          \<and> status (fst (deleteBook env s u bookId)) = 200)"
proof -
  note run = deleteBook_found [OF assms]
  have a: "deleteBook env s u bookId = (respond 500 (Error ''Delete failed.''), s)"
    if "cloudinary_destroy env = Rejects"
    using that by (simp add: run)
  have b: "fst (deleteBook env s u bookId) = respond 500 (Error ''Delete failed.'')
          \<and> findOne i u (books (snd (deleteBook env s u bookId))) = Some b
          \<and> cloudinaryId b \<notin> set (cloud (snd (deleteBook env s u bookId)))"
    if "cloudinary_destroy env = Resolves () \<and> db_write env = Rejects"
    using that assms(3) by (simp add: run destroyed_books destroyed_cloud)
  have c: "deleteBook env s u bookId =
              (respond 200 (Message ''Book deleted.''),
               (destroyed (cloudinaryId b) s)\<lparr>books := findByIdAndDelete i (books s)\<rparr>)
          \<and> cloudinaryId b \<notin> set (cloud (snd (deleteBook env s u bookId)))
          \<and> (distinctIds s \<longrightarrow> findOne i u (books (snd (deleteBook env s u bookId))) = None)"
    if "cloudinary_destroy env = Resolves () \<and> db_write env = Resolves ()"
    using that by (simp add: run destroyed_cloud findOne_findByIdAndDelete distinctIds_def)
  have d: "cloudinaryId b \<notin> set (cloud (snd (deleteBook env s u bookId)))
          \<and> status (fst (deleteBook env s u bookId)) = 200"
    if "findOne i u (books (snd (deleteBook env s u bookId))) = None"
  proof (cases "cloudinary_destroy env")
    case Rejects
    with that assms(3) show ?thesis by (simp add: run)
  next
    case (Resolves x)
    show ?thesis
    proof (cases "db_write env")
      case Rejects
      with that Resolves assms(3) show ?thesis by (simp add: run destroyed_books)
    next
      case (Resolves y)
      with \<open>cloudinary_destroy env = Resolves x\<close> show ?thesis
        by (simp add: run destroyed_cloud respond_def)
    qed
  qed
  from a b c d show ?thesis by blast
qed

lemma book1_cloudinaryId: "cloudinaryId book1 = str ''my_ebooks/f1''"
  by (simp add: book1_def)

theorem deleteBook_blob_before_record_witness:
  "deleteBook (env0\<lparr>cloudinary_destroy := Rejects\<rparr>) s0 1 id_b1 = (respond 500 (Error ''Delete failed.''), s0)
   \<and> fst (deleteBook (env0\<lparr>db_write := Rejects\<rparr>) s0 1 id_b1) = respond 500 (Error ''Delete failed.'')
   \<and> findOne 0xB1 1 (books (snd (deleteBook (env0\<lparr>db_write := Rejects\<rparr>) s0 1 id_b1))) = Some book1
   \<and> str ''my_ebooks/f1'' \<notin> set (cloud (snd (deleteBook (env0\<lparr>db_write := Rejects\<rparr>) s0 1 id_b1)))
   \<and> fst (deleteBook env0 s0 1 id_b1) = respond 200 (Message ''Book deleted.'')
   \<and> str ''my_ebooks/f1'' \<notin> set (cloud (snd (deleteBook env0 s0 1 id_b1)))
   \<and> findOne 0xB1 1 (books (snd (deleteBook env0 s0 1 id_b1))) = None"
proof -
  let ?e1 = "env0\<lparr>cloudinary_destroy := Rejects\<rparr>"
  let ?e2 = "env0\<lparr>db_write := Rejects\<rparr>"
  have c1: "castObjectId ?e1 id_b1 = Some 0xB1" and q1: "db_query ?e1 = Resolves ()"
    and r1: "cloudinary_destroy ?e1 = Rejects"
    using env0_cast_b1 env0_resolves by simp_all
  have c2: "castObjectId ?e2 id_b1 = Some 0xB1" and q2: "db_query ?e2 = Resolves ()"
    and r2: "cloudinary_destroy ?e2 = Resolves () \<and> db_write ?e2 = Rejects"
    using env0_cast_b1 env0_resolves by simp_all
  have r0: "cloudinary_destroy env0 = Resolves () \<and> db_write env0 = Resolves ()"
    using env0_resolves by simp
  from deleteBook_blob_before_record [OF c1 q1 s0_book1] r1
  have a: "deleteBook ?e1 s0 1 id_b1 = (respond 500 (Error ''Delete failed.''), s0)"
    by blast
  from deleteBook_blob_before_record [OF c2 q2 s0_book1] r2
  have b: "fst (deleteBook ?e2 s0 1 id_b1) = respond 500 (Error ''Delete failed.'')
     \<and> findOne 0xB1 1 (books (snd (deleteBook ?e2 s0 1 id_b1))) = Some book1
     \<and> cloudinaryId book1 \<notin> set (cloud (snd (deleteBook ?e2 s0 1 id_b1)))"
    by blast
  from deleteBook_blob_before_record [OF env0_cast_b1 env0_resolves(1) s0_book1] r0 s0_distinct
  have c: "fst (deleteBook env0 s0 1 id_b1) = respond 200 (Message ''Book deleted.'')
     \<and> cloudinaryId book1 \<notin> set (cloud (snd (deleteBook env0 s0 1 id_b1)))
     \<and> findOne 0xB1 1 (books (snd (deleteBook env0 s0 1 id_b1))) = None"
    by (metis fst_conv)
  from a b c show ?thesis
    unfolding book1_cloudinaryId by blast
qed

section \<open>Uploading a Book\<close>

lemma progressPercentage_start:
  "currentPage b = 0 \<Longrightarrow> progressPercentage b = Fin 0"
proof -
  have "\<lfloor>1 / 2 :: rat\<rfloor> = 0" by (simp add: floor_eq_iff)
  then show ?thesis if "currentPage b = 0"
    using that by (simp add: progressPercentage_def toDouble_def)
qed

lemma upload_try_pdf_rejects:
  "fs_readFile env = Resolves () \<Longrightarrow> pdf env = Rejects \<Longrightarrow>
   upload_try env s u f t = (respond 500 (Error ''Upload failed.''), s)"
  by (simp add: upload_try_def)

lemma upload_try_created:
  assumes "fs_readFile env = Resolves ()" and "pdf env = Resolves numpages"
    and "cloudinary_upload env = Resolves (url, pid)" and "db_write env = Resolves ()"
    and "trim (case parseNonEmptyString t of Some x \<Rightarrow> x | None \<Rightarrow> originalname f) \<noteq> []"
    and "trim url \<noteq> []" and "trim pid \<noteq> []"
    and "nb = new_Book env (case parseNonEmptyString t of Some x \<Rightarrow> x | None \<Rightarrow> originalname f)
            url pid (if Number_isInteger numpages then max (numberOf numpages) 0 else 0) u"
  shows "upload_try env s u f t =
              (respond 201 (BookJson nb (Fin 0)), s\<lparr>cloud := pid # cloud s, books := books s @ [nb]\<rparr>)"
proof -
  have "validates nb"
    using assms(5-8) by (simp add: validates_def new_Book_def)
  moreover have "progressPercentage nb = Fin 0"
    using assms(8) by (simp add: progressPercentage_start new_Book_def)
  ultimately show ?thesis
    using assms(1-4,8) by (simp add: upload_try_def Let_def)
qed

text \<open>
  C3 (amended). For an upload that passes multer's filter and size limit and whose
  temporary file can be read: if the PDF parser rejects, the upload fails with status 500
  and neither a Book nor a Cloudinary file is created; if the parser resolves, the page
  count it reports does not fail the upload, and the created Book's \<^verbatim>\<open>totalPages\<close> is that
  count when it is an integer (0 when it is negative) and 0 when it is absent or not an
  integer.
\<close>

theorem upload_page_count:
  assumes "fileFilter f" and "size f \<le> MAX_PDF_SIZE_BYTES" and "fs_readFile env = Resolves ()"
  shows "(pdf env = Rejects \<longrightarrow>
            fst (upload_book env s u (Some f) t) = respond 500 (Error ''Upload failed.'')
          \<and> books (snd (upload_book env s u (Some f) t)) = books s
          \<and> cloud (snd (upload_book env s u (Some f) t)) = cloud s)
       \<and> (\<forall>numpages url pid.
            pdf env = Resolves numpages \<and> cloudinary_upload env = Resolves (url, pid)
            \<and> db_write env = Resolves ()
            \<and> trim (case parseNonEmptyString t of Some x \<Rightarrow> x | None \<Rightarrow> originalname f) \<noteq> []
            \<and> trim url \<noteq> [] \<and> trim pid \<noteq> [] \<longrightarrow>
            (\<exists>nb. fst (upload_book env s u (Some f) t) = respond 201 (BookJson nb (Fin 0))
                \<and> books (snd (upload_book env s u (Some f) t)) = books s @ [nb]
                \<and> owner nb = u \<and> currentPage nb = 0
                \<and> totalPages nb = (if Number_isInteger numpages then max (numberOf numpages) 0 else 0)
                \<and> (\<not> Number_isInteger numpages \<longrightarrow> totalPages nb = 0)))"
proof (intro conjI impI allI)
  let ?s = "s\<lparr>uploads := path f # uploads s\<rparr>"
  have route: "upload_book env s u (Some f) t =
      (let (r, s') = upload_try env ?s u f t
       in (r, case fs_unlink env of
                Resolves _ \<Rightarrow> s'\<lparr>uploads := remove1 (path f) (uploads s')\<rparr>
              | Rejects \<Rightarrow> s'))"
    using assms(1,2) by (simp add: upload_book_def)
  {
    assume "pdf env = Rejects"
    then have "upload_try env ?s u f t = (respond 500 (Error ''Upload failed.''), ?s)"
      using assms(3) by (rule upload_try_pdf_rejects [rotated])
    then show "fst (upload_book env s u (Some f) t) = respond 500 (Error ''Upload failed.'')"
      and "books (snd (upload_book env s u (Some f) t)) = books s"
      and "cloud (snd (upload_book env s u (Some f) t)) = cloud s"
      by (simp_all add: route split: outcome.splits)
  }
  fix numpages url pid
  assume h: "pdf env = Resolves numpages \<and> cloudinary_upload env = Resolves (url, pid)
            \<and> db_write env = Resolves ()
            \<and> trim (case parseNonEmptyString t of Some x \<Rightarrow> x | None \<Rightarrow> originalname f) \<noteq> []
            \<and> trim url \<noteq> [] \<and> trim pid \<noteq> []"
  define nb where "nb = new_Book env (case parseNonEmptyString t of Some x \<Rightarrow> x | None \<Rightarrow> originalname f)
            url pid (if Number_isInteger numpages then max (numberOf numpages) 0 else 0) u"
  have run: "upload_try env ?s u f t =
            (respond 201 (BookJson nb (Fin 0)), ?s\<lparr>cloud := pid # cloud ?s, books := books ?s @ [nb]\<rparr>)"
    using h assms(3) nb_def by (intro upload_try_created [where numpages = numpages]) simp_all
  have nb: "owner nb = u" "currentPage nb = 0"
      "totalPages nb = (if Number_isInteger numpages then max (numberOf numpages) 0 else 0)"
    by (simp_all add: nb_def new_Book_def)
  show "\<exists>nb. fst (upload_book env s u (Some f) t) = respond 201 (BookJson nb (Fin 0))
                \<and> books (snd (upload_book env s u (Some f) t)) = books s @ [nb]
                \<and> owner nb = u \<and> currentPage nb = 0
                \<and> totalPages nb = (if Number_isInteger numpages then max (numberOf numpages) 0 else 0)
                \<and> (\<not> Number_isInteger numpages \<longrightarrow> totalPages nb = 0)"
    using nb by (intro exI [of _ nb]) (simp add: route run split: outcome.splits)
qed

lemma report_pdf_accepted: "fileFilter report_pdf" "size report_pdf \<le> MAX_PDF_SIZE_BYTES"
proof -
  show "fileFilter report_pdf" by code_simp
  show "size report_pdf \<le> MAX_PDF_SIZE_BYTES"
    by (simp add: report_pdf_def MAX_PDF_SIZE_BYTES_def)
qed

lemma env0_uploads:
  "fs_readFile env0 = Resolves ()" "fs_unlink env0 = Resolves ()"
  "cloudinary_upload env0 = Resolves (str ''https://res.example/my_ebooks/f3'', str ''my_ebooks/f3'')"
  by (simp_all add: env0_def)

theorem upload_parse_failure_counterexample:
  "fileFilter report_pdf \<and> pdf (env0\<lparr>pdf := Rejects\<rparr>) = Rejects
   \<and> upload_book (env0\<lparr>pdf := Rejects\<rparr>) s0 1 (Some report_pdf) JUndefined =
       (respond 500 (Error ''Upload failed.''), s0)"
proof -
  have "uploads s0 = []" by (simp add: s0_def)
  then have "s0\<lparr>uploads := remove1 (path report_pdf) (path report_pdf # uploads s0)\<rparr> = s0"
    by simp
  then show ?thesis
    using report_pdf_accepted env0_uploads
    by (simp add: upload_book_def upload_try_def)
qed

theorem upload_page_count_witness:
  "fst (upload_book (env0\<lparr>pdf := Rejects\<rparr>) s0 1 (Some report_pdf) JUndefined) =
     respond 500 (Error ''Upload failed.'')
   \<and> books (snd (upload_book (env0\<lparr>pdf := Rejects\<rparr>) s0 1 (Some report_pdf) JUndefined)) = books s0
   \<and> (\<exists>nb. fst (upload_book (env0\<lparr>pdf := Resolves JUndefined\<rparr>) s0 1 (Some report_pdf) JUndefined) =
              respond 201 (BookJson nb (Fin 0))
          \<and> books (snd (upload_book (env0\<lparr>pdf := Resolves JUndefined\<rparr>) s0 1 (Some report_pdf) JUndefined))
              = books s0 @ [nb]
          \<and> owner nb = 1 \<and> totalPages nb = 0)"
proof -
  let ?e1 = "env0\<lparr>pdf := Rejects\<rparr>"
  let ?e2 = "env0\<lparr>pdf := Resolves JUndefined\<rparr>"
  have r1: "fs_readFile ?e1 = Resolves ()" and r2: "fs_readFile ?e2 = Resolves ()"
    by (simp_all add: env0_def)
  have p1: "pdf ?e1 = Rejects" by simp
  have pre: "pdf ?e2 = Resolves JUndefined
      \<and> cloudinary_upload ?e2 = Resolves (str ''https://res.example/my_ebooks/f3'', str ''my_ebooks/f3'')
      \<and> db_write ?e2 = Resolves ()
      \<and> trim (case parseNonEmptyString JUndefined of Some x \<Rightarrow> x | None \<Rightarrow> originalname report_pdf) \<noteq> []
      \<and> trim (str ''https://res.example/my_ebooks/f3'') \<noteq> [] \<and> trim (str ''my_ebooks/f3'') \<noteq> []"
    by code_simp
  from upload_page_count [OF report_pdf_accepted r1, of s0 1 JUndefined] p1
  have a: "fst (upload_book ?e1 s0 1 (Some report_pdf) JUndefined) = respond 500 (Error ''Upload failed.'')
     \<and> books (snd (upload_book ?e1 s0 1 (Some report_pdf) JUndefined)) = books s0"
    by blast
  have undef: "\<not> Number_isInteger JUndefined" by simp
  from upload_page_count [OF report_pdf_accepted r2, of s0 1 JUndefined,
      THEN conjunct2, rule_format, OF pre]
  obtain nb where "fst (upload_book ?e2 s0 1 (Some report_pdf) JUndefined) = respond 201 (BookJson nb (Fin 0))"
    and "books (snd (upload_book ?e2 s0 1 (Some report_pdf) JUndefined)) = books s0 @ [nb]"
    and "owner nb = 1" and "\<not> Number_isInteger JUndefined \<longrightarrow> totalPages nb = 0"
    by blast
  with undef
  have b: "\<exists>nb. fst (upload_book ?e2 s0 1 (Some report_pdf) JUndefined) = respond 201 (BookJson nb (Fin 0))
          \<and> books (snd (upload_book ?e2 s0 1 (Some report_pdf) JUndefined)) = books s0 @ [nb]
          \<and> owner nb = 1 \<and> totalPages nb = 0"
    by blast
  from a b show ?thesis by blast
qed

section \<open>Ownership\<close>

lemma findOne_view:
  assumes "filter (\<lambda>b. owner b = u) bs = filter (\<lambda>b. owner b = u) bs'"
  shows "findOne i u bs = findOne i u bs'"
  using findOne_filter_owner [of i u bs] findOne_filter_owner [of i u bs'] assms by simp

lemma find_sorted_view:
  assumes "filter (\<lambda>b. owner b = u) bs = filter (\<lambda>b. owner b = u) bs'"
  shows "find_sorted u bs = find_sorted u bs'"
  using assms by (simp add: find_sorted_def)

lemma find_sorted_owner: "b \<in> set (find_sorted u bs) \<Longrightarrow> owner b = u"
  by (simp add: find_sorted_def)

lemma removeAll_view:
  "owner a \<noteq> u \<Longrightarrow> filter (\<lambda>b. owner b = u) (removeAll a bs) = filter (\<lambda>b. owner b = u) bs"
  by (induction bs) auto

text \<open>Every write of a handler is a \<open>save\<close> or a delete of the document \<open>findOne\<close> gave.\<close>

lemma save_loaded_others:
  assumes "distinct (map book_id (books s))" and "findOne i u (books s) = Some b"
    and "book_id d = book_id b" and "owner d = owner b"
  shows "filter (\<lambda>x. owner x \<noteq> u) (save now b d (books s)) = filter (\<lambda>x. owner x \<noteq> u) (books s)"
  using assms findOne_SomeD [OF assms(2)] by (intro save_others [where i = i]) simp_all

lemma others_get_books:
  "filter (\<lambda>x. owner x \<noteq> u) (books (snd (get_books env s u))) = filter (\<lambda>x. owner x \<noteq> u) (books s)"
  by (simp add: get_books_def split: outcome.splits)

lemma others_updateProgress:
  "distinctIds s \<Longrightarrow>
   filter (\<lambda>x. owner x \<noteq> u) (books (snd (updateProgress env s u bookId page))) =
   filter (\<lambda>x. owner x \<noteq> u) (books s)"
  by (auto simp: updateProgress_def distinctIds_def Let_def save_loaded_others
        split: option.splits sum.splits outcome.splits)

lemma others_addVocab:
  "distinctIds s \<Longrightarrow>
   filter (\<lambda>x. owner x \<noteq> u) (books (snd (addVocab env s u bookId w d))) =
   filter (\<lambda>x. owner x \<noteq> u) (books s)"
  by (auto simp: addVocab_def distinctIds_def Let_def save_loaded_others
        split: option.splits sum.splits outcome.splits)

lemma others_updateVocab:
  "distinctIds s \<Longrightarrow>
   filter (\<lambda>x. owner x \<noteq> u) (books (snd (updateVocab env s u bookId vocabId w d))) =
   filter (\<lambda>x. owner x \<noteq> u) (books s)"
  by (auto simp: updateVocab_def distinctIds_def Let_def save_loaded_others
        split: option.splits sum.splits outcome.splits)

lemma others_deleteVocab:
  "distinctIds s \<Longrightarrow>
   filter (\<lambda>x. owner x \<noteq> u) (books (snd (deleteVocab env s u bookId vocabId))) =
   filter (\<lambda>x. owner x \<noteq> u) (books s)"
  by (auto simp: deleteVocab_def distinctIds_def Let_def save_loaded_others
        split: option.splits sum.splits outcome.splits)

lemma others_addNote:
  "distinctIds s \<Longrightarrow>
   filter (\<lambda>x. owner x \<noteq> u) (books (snd (addNote env s u bookId t c))) =
   filter (\<lambda>x. owner x \<noteq> u) (books s)"
  by (auto simp: addNote_def distinctIds_def Let_def save_loaded_others
        split: option.splits sum.splits outcome.splits)

lemma others_getNotes:
  "filter (\<lambda>x. owner x \<noteq> u) (books (snd (getNotes env s u bookId))) =
   filter (\<lambda>x. owner x \<noteq> u) (books s)"
  by (auto simp: getNotes_def split: option.splits outcome.splits)

lemma others_updateNote:
  "distinctIds s \<Longrightarrow>
   filter (\<lambda>x. owner x \<noteq> u) (books (snd (updateNote env s u bookId noteId t c))) =
   filter (\<lambda>x. owner x \<noteq> u) (books s)"
  by (auto simp: updateNote_def distinctIds_def Let_def save_loaded_others
        split: option.splits sum.splits outcome.splits)

lemma others_deleteNote:
  "distinctIds s \<Longrightarrow>
   filter (\<lambda>x. owner x \<noteq> u) (books (snd (deleteNote env s u bookId noteId))) =
   filter (\<lambda>x. owner x \<noteq> u) (books s)"
  by (auto simp: deleteNote_def distinctIds_def Let_def save_loaded_others
        split: option.splits sum.splits outcome.splits)

lemma others_deleteBook:
  "distinctIds s \<Longrightarrow>
   filter (\<lambda>x. owner x \<noteq> u) (books (snd (deleteBook env s u bookId))) =
   filter (\<lambda>x. owner x \<noteq> u) (books s)"
  by (auto simp: deleteBook_def distinctIds_def Let_def destroyed_def findByIdAndDelete_others
        split: option.splits sum.splits outcome.splits)

lemma others_route:
  "distinctIds s \<Longrightarrow>
   filter (\<lambda>x. owner x \<noteq> u) (books (snd (route env s u r))) = filter (\<lambda>x. owner x \<noteq> u) (books s)"
  by (cases r)
     (simp_all add: others_get_books others_updateProgress others_addVocab others_updateVocab
        others_deleteVocab others_addNote others_getNotes others_updateNote others_deleteNote
        others_deleteBook)

text \<open>
  A handler reads the collection only through \<open>findOne\<close> (or \<open>find_sorted\<close>) with the
  user's id, so its response is the same on two states with the same Books of that user.
\<close>

lemma view_get_books:
  assumes "filter (\<lambda>b. owner b = u) (books s) = filter (\<lambda>b. owner b = u) (books s')"
  shows "fst (get_books env s u) = fst (get_books env s' u)"
proof -
  have "find_sorted u (books s) = find_sorted u (books s')"
    using assms by (rule find_sorted_view)
  then show ?thesis
    by (cases "db_query env") (simp_all add: get_books_def)
qed

lemma view_updateProgress:
  assumes "filter (\<lambda>b. owner b = u) (books s) = filter (\<lambda>b. owner b = u) (books s')"
  shows "fst (updateProgress env s u bookId page) = fst (updateProgress env s' u bookId page)"
proof (cases "castObjectId env bookId")
  case None
  then show ?thesis by (simp add: updateProgress_def)
next
  case (Some i)
  with findOne_view [OF assms, of i] show ?thesis
    by (auto simp: updateProgress_def Let_def split: option.splits sum.splits outcome.splits)
qed

lemma view_addVocab:
  assumes "filter (\<lambda>b. owner b = u) (books s) = filter (\<lambda>b. owner b = u) (books s')"
  shows "fst (addVocab env s u bookId w d) = fst (addVocab env s' u bookId w d)"
proof (cases "castObjectId env bookId")
  case None
  then show ?thesis by (simp add: addVocab_def)
next
  case (Some i)
  with findOne_view [OF assms, of i] show ?thesis
    by (auto simp: addVocab_def Let_def split: option.splits sum.splits outcome.splits)
qed

lemma view_updateVocab:
  assumes "filter (\<lambda>b. owner b = u) (books s) = filter (\<lambda>b. owner b = u) (books s')"
  shows "fst (updateVocab env s u bookId vocabId w d) = fst (updateVocab env s' u bookId vocabId w d)"
proof (cases "castObjectId env bookId")
  case None
  then show ?thesis by (simp add: updateVocab_def)
next
  case (Some i)
  with findOne_view [OF assms, of i] show ?thesis
    by (auto simp: updateVocab_def Let_def split: option.splits sum.splits outcome.splits)
qed

lemma view_deleteVocab:
  assumes "filter (\<lambda>b. owner b = u) (books s) = filter (\<lambda>b. owner b = u) (books s')"
  shows "fst (deleteVocab env s u bookId vocabId) = fst (deleteVocab env s' u bookId vocabId)"
proof (cases "castObjectId env bookId")
  case None
  then show ?thesis by (simp add: deleteVocab_def)
next
  case (Some i)
  with findOne_view [OF assms, of i] show ?thesis
    by (auto simp: deleteVocab_def Let_def split: option.splits sum.splits outcome.splits)
qed

lemma view_addNote:
  assumes "filter (\<lambda>b. owner b = u) (books s) = filter (\<lambda>b. owner b = u) (books s')"
  shows "fst (addNote env s u bookId t c) = fst (addNote env s' u bookId t c)"
proof (cases "castObjectId env bookId")
  case None
  then show ?thesis by (simp add: addNote_def)
next
  case (Some i)
  with findOne_view [OF assms, of i] show ?thesis
    by (auto simp: addNote_def Let_def split: option.splits sum.splits outcome.splits)
qed

lemma view_getNotes:
  assumes "filter (\<lambda>b. owner b = u) (books s) = filter (\<lambda>b. owner b = u) (books s')"
  shows "fst (getNotes env s u bookId) = fst (getNotes env s' u bookId)"
proof (cases "castObjectId env bookId")
  case None
  then show ?thesis by (simp add: getNotes_def)
next
  case (Some i)
  with findOne_view [OF assms, of i] show ?thesis
    by (auto simp: getNotes_def Let_def split: option.splits sum.splits outcome.splits)
qed

lemma view_updateNote:
  assumes "filter (\<lambda>b. owner b = u) (books s) = filter (\<lambda>b. owner b = u) (books s')"
  shows "fst (updateNote env s u bookId noteId t c) = fst (updateNote env s' u bookId noteId t c)"
proof (cases "castObjectId env bookId")
  case None
  then show ?thesis by (simp add: updateNote_def)
next
  case (Some i)
  with findOne_view [OF assms, of i] show ?thesis
    by (auto simp: updateNote_def Let_def split: option.splits sum.splits outcome.splits)
qed

lemma view_deleteNote:
  assumes "filter (\<lambda>b. owner b = u) (books s) = filter (\<lambda>b. owner b = u) (books s')"
  shows "fst (deleteNote env s u bookId noteId) = fst (deleteNote env s' u bookId noteId)"
proof (cases "castObjectId env bookId")
  case None
  then show ?thesis by (simp add: deleteNote_def)
next
  case (Some i)
  with findOne_view [OF assms, of i] show ?thesis
    by (auto simp: deleteNote_def Let_def split: option.splits sum.splits outcome.splits)
qed

lemma view_deleteBook:
  assumes "filter (\<lambda>b. owner b = u) (books s) = filter (\<lambda>b. owner b = u) (books s')"
  shows "fst (deleteBook env s u bookId) = fst (deleteBook env s' u bookId)"
proof (cases "castObjectId env bookId")
  case None
  then show ?thesis by (simp add: deleteBook_def)
next
  case (Some i)
  with findOne_view [OF assms, of i] show ?thesis
    by (auto simp: deleteBook_def Let_def split: option.splits sum.splits outcome.splits)
qed

lemma view_route:
  assumes "filter (\<lambda>b. owner b = u) (books s) = filter (\<lambda>b. owner b = u) (books s')"
  shows "fst (route env s u r) = fst (route env s' u r)"
  by (cases r)
     (simp_all only: route.simps view_get_books [OF assms] view_updateProgress [OF assms]
        view_addVocab [OF assms] view_updateVocab [OF assms] view_deleteVocab [OF assms]
        view_addNote [OF assms] view_getNotes [OF assms] view_updateNote [OF assms]
        view_deleteNote [OF assms] view_deleteBook [OF assms])

lemma only_get_books_returns_books:
  "body (fst (updateProgress env s u bookId page)) \<noteq> BooksJson l"
  "body (fst (addVocab env s u bookId w d)) \<noteq> BooksJson l"
  "body (fst (updateVocab env s u bookId subId w d)) \<noteq> BooksJson l"
  "body (fst (deleteVocab env s u bookId subId)) \<noteq> BooksJson l"
  "body (fst (addNote env s u bookId w d)) \<noteq> BooksJson l"
  "body (fst (getNotes env s u bookId)) \<noteq> BooksJson l"
  "body (fst (updateNote env s u bookId subId w d)) \<noteq> BooksJson l"
  "body (fst (deleteNote env s u bookId subId)) \<noteq> BooksJson l"
  "body (fst (deleteBook env s u bookId)) \<noteq> BooksJson l"
  by (simp_all add: updateProgress_def addVocab_def updateVocab_def deleteVocab_def addNote_def
      getNotes_def updateNote_def deleteNote_def deleteBook_def respond_def Let_def
      split: option.splits sum.splits outcome.splits)

lemma get_books_owned:
  "body (fst (get_books env s u)) = BooksJson l \<Longrightarrow> x \<in> set l \<Longrightarrow> owner (fst x) = u"
  by (cases "db_query env") (auto simp: get_books_def respond_def toJSON_def find_sorted_owner)

lemma returned_books_owned:
  "body (fst (route env s u r)) = BooksJson l \<Longrightarrow> x \<in> set l \<Longrightarrow> owner (fst x) = u"
  using get_books_owned [of env s u l x]
  by (cases r) (simp_all add: only_get_books_returns_books)

lemma foreign_book_not_found:
  assumes "distinctIds s" and "a \<in> set (books s)" and "owner a \<noteq> u"
  shows "findOne (book_id a) u (books s) = None"
proof (cases "findOne (book_id a) u (books s)")
  case None
  then show ?thesis .
next
  case (Some b)
  then have "b \<in> set (books s)" "book_id b = book_id a" "owner b = u"
    using findOne_SomeD by blast+
  with assms have False
    by (metis distinctIds_def distinct_map inj_onD)
  then show ?thesis ..
qed

text \<open>
  C1. For every request \<open>r\<close> to a Book route made as user \<open>u\<close>: the Books of other users
  are the same, in the same order, after the request as before it; the response depends only on
  the user's own Books, so it is the same whether or not any Book of another user exists;
  and every Book in a returned list is owned by \<open>u\<close>.
\<close>

theorem ownership_isolation:
  "(distinctIds s \<longrightarrow>
      filter (\<lambda>b. owner b \<noteq> u) (books (snd (route env s u r))) = filter (\<lambda>b. owner b \<noteq> u) (books s))
   \<and> (filter (\<lambda>b. owner b = u) (books s) = filter (\<lambda>b. owner b = u) (books s') \<longrightarrow>
        fst (route env s u r) = fst (route env s' u r))
   \<and> (\<forall>a. owner a \<noteq> u \<longrightarrow>
        fst (route env (s\<lparr>books := removeAll a (books s)\<rparr>) u r) = fst (route env s u r))
   \<and> (\<forall>l x. body (fst (route env s u r)) = BooksJson l \<and> x \<in> set l \<longrightarrow> owner (fst x) = u)"
proof (intro conjI impI allI)
  assume "distinctIds s"
  then show "filter (\<lambda>b. owner b \<noteq> u) (books (snd (route env s u r))) =
             filter (\<lambda>b. owner b \<noteq> u) (books s)"
    by (rule others_route)
next
  assume "filter (\<lambda>b. owner b = u) (books s) = filter (\<lambda>b. owner b = u) (books s')"
  then show "fst (route env s u r) = fst (route env s' u r)"
    by (rule view_route)
next
  fix a :: book
  assume "owner a \<noteq> u"
  then have "filter (\<lambda>b. owner b = u) (books (s\<lparr>books := removeAll a (books s)\<rparr>)) =
             filter (\<lambda>b. owner b = u) (books s)"
    by (simp add: removeAll_view)
  then show "fst (route env (s\<lparr>books := removeAll a (books s)\<rparr>) u r) = fst (route env s u r)"
    by (rule view_route)
next
  fix l x
  assume "body (fst (route env s u r)) = BooksJson l \<and> x \<in> set l"
  then show "owner (fst x) = u"
    using returned_books_owned by blast
qed

lemma s0_foreign: "filter (\<lambda>b. owner b \<noteq> 1) (books s0) = [book2]"
  by code_simp

lemma book2_owner: "owner book2 \<noteq> 1"
  by code_simp

lemma s0_delete_foreign:
  "fst (route env0 s0 1 (DeleteBook id_b2)) = respond 404 (Error ''Unauthorized or not found.'')"
  by code_simp

lemma s0_delete_missing:
  "fst (route env0 s0 1 (DeleteBook id_a1)) = respond 404 (Error ''Unauthorized or not found.'')"
  by code_simp

lemma s0_get_books: "body (fst (route env0 s0 1 GetBooks)) = BooksJson [toJSON book1]"
  by code_simp

theorem ownership_isolation_witness:
  "filter (\<lambda>b. owner b \<noteq> 1) (books (snd (route env0 s0 1 (UpdateProgress id_b2 (JNumber (Fin 3)))))) = [book2]
   \<and> filter (\<lambda>b. owner b \<noteq> 1) (books (snd (route env0 s0 1 (DeleteBook id_b2)))) = [book2]
   \<and> fst (route env0 (s0\<lparr>books := removeAll book2 (books s0)\<rparr>) 1 (DeleteBook id_b2))
       = fst (route env0 s0 1 (DeleteBook id_b2))
   \<and> fst (route env0 s0 1 (DeleteBook id_b2)) = fst (route env0 s0 1 (DeleteBook id_a1))
   \<and> owner (fst (toJSON book1)) = 1"
proof -
  from ownership_isolation [of s0 1 env0 "UpdateProgress id_b2 (JNumber (Fin 3))"] s0_distinct
  have a: "filter (\<lambda>b. owner b \<noteq> 1) (books (snd (route env0 s0 1 (UpdateProgress id_b2 (JNumber (Fin 3))))))
            = filter (\<lambda>b. owner b \<noteq> 1) (books s0)"
    by blast
  from ownership_isolation [of s0 1 env0 "DeleteBook id_b2"] s0_distinct
  have b: "filter (\<lambda>b. owner b \<noteq> 1) (books (snd (route env0 s0 1 (DeleteBook id_b2))))
            = filter (\<lambda>b. owner b \<noteq> 1) (books s0)"
    by blast
  from ownership_isolation [of s0 1 env0 "DeleteBook id_b2"] book2_owner
  have c: "fst (route env0 (s0\<lparr>books := removeAll book2 (books s0)\<rparr>) 1 (DeleteBook id_b2))
       = fst (route env0 s0 1 (DeleteBook id_b2))"
    by blast
  have d: "fst (route env0 s0 1 (DeleteBook id_b2)) = fst (route env0 s0 1 (DeleteBook id_a1))"
    by (simp only: s0_delete_foreign s0_delete_missing)
  have "toJSON book1 \<in> set [toJSON book1]" by simp
  with ownership_isolation [of s0 1 env0 GetBooks] s0_get_books
  have e: "owner (fst (toJSON book1)) = 1"
    by blast
  from a b c d e show ?thesis
    by (simp only: s0_foreign)
qed

section \<open>The invariants are kept\<close>

lemma updateOne_set: "set (updateOne i d bs) \<subseteq> insert d (set bs)"
  by (induction bs) auto

lemma save_set:
  "x \<in> set (save now b d bs) \<Longrightarrow> x \<in> set bs \<or> x = d \<or> x = d\<lparr>updatedAt := now\<rparr>"
  using updateOne_set [of "book_id d" _ bs] by (auto simp: save_def split: if_splits)

lemma findByIdAndDelete_set: "set (findByIdAndDelete i bs) \<subseteq> set bs"
  by (induction bs) auto

lemma findByIdAndDelete_distinct:
  "distinct (map book_id bs) \<Longrightarrow> distinct (map book_id (findByIdAndDelete i bs))"
  using findByIdAndDelete_set [of i] by (induction bs) (auto simp: image_iff)

lemma route_distinctIds: "distinctIds s \<Longrightarrow> distinctIds (snd (route env s u r))"
  by (cases r)
     (auto simp: distinctIds_def get_books_def updateProgress_def addVocab_def updateVocab_def
        deleteVocab_def addNote_def getNotes_def updateNote_def deleteNote_def deleteBook_def
        destroyed_def Let_def save_ids findByIdAndDelete_distinct
        split: option.splits sum.splits outcome.splits)

lemma pagesOk_fields:
  "currentPage d = currentPage b \<Longrightarrow> totalPages d = totalPages b \<Longrightarrow> pagesOk b \<Longrightarrow> pagesOk d"
  by (simp add: pagesOk_def)

lemma save_pagesOk:
  assumes "\<forall>x\<in>set bs. pagesOk x" and "pagesOk d"
  shows "\<forall>x\<in>set (save now b d bs). pagesOk x"
proof
  fix x
  assume "x \<in> set (save now b d bs)"
  then have "x \<in> set bs \<or> x = d \<or> x = d\<lparr>updatedAt := now\<rparr>"
    by (rule save_set)
  with assms show "pagesOk x"
    by (auto simp: pagesOk_def)
qed

lemma updateProgress_pagesOk:
  assumes "\<forall>x\<in>set (books s). pagesOk x"
  shows "\<forall>x\<in>set (books (snd (updateProgress env s u bookId page))). pagesOk x"
proof (cases "status (fst (updateProgress env s u bookId page)) = 200")
  case False
  have "snd (updateProgress env s u bookId page) = s"
    using False
    by (auto simp: updateProgress_def respond_def Let_def split: option.splits sum.splits outcome.splits)
  with assms show ?thesis by simp
next
  case True
  obtain r s' where run: "updateProgress env s u bookId page = (r, s')"
    by (cases "updateProgress env s u bookId page")
  with True have "status r = 200" by simp
  with run obtain i p b where "0 \<le> p" and found: "findOne i u (books s) = Some b"
    and range: "\<not> (0 < totalPages b \<and> totalPages b < p)"
    and s': "s' = s\<lparr>books := save (Date_now env) b (b\<lparr>currentPage := p\<rparr>) (books s)\<rparr>"
    by (rule updateProgress_success_cases)
  from found assms have "pagesOk b"
    using findOne_SomeD by blast
  with \<open>0 \<le> p\<close> range have "pagesOk (b\<lparr>currentPage := p\<rparr>)"
    by (auto simp: pagesOk_def)
  with assms have "\<forall>x\<in>set (save (Date_now env) b (b\<lparr>currentPage := p\<rparr>) (books s)). pagesOk x"
    by (rule save_pagesOk)
  then show ?thesis
    by (simp only: run s' snd_conv) simp
qed

lemma loaded_pagesOk:
  "\<forall>x\<in>set (books s). pagesOk x \<Longrightarrow> findOne i u (books s) = Some b \<Longrightarrow> pagesOk b"
  using findOne_SomeD by blast

text \<open>The handlers of the embedded collections save the loaded Book with its pages as they were.\<close>

lemma addVocab_shape:
  "snd (addVocab env s u bookId w d) = s \<or>
   (\<exists>i b doc. findOne i u (books s) = Some b \<and> currentPage doc = currentPage b
        \<and> totalPages doc = totalPages b
        \<and> snd (addVocab env s u bookId w d) = s\<lparr>books := save (Date_now env) b doc (books s)\<rparr>)"
proof (cases "castObjectId env bookId")
  case None
  then show ?thesis by (simp add: addVocab_def)
next
  case (Some i)
  show ?thesis
  proof (cases "findOne i u (books s)")
    case None
    with Some show ?thesis
      by (simp add: addVocab_def Let_def split: option.splits outcome.splits)
  next
    case (Some b)
    show ?thesis
    proof (cases "snd (addVocab env s u bookId w d) = s")
      case True
      then show ?thesis ..
    next
      case False
      then have "\<exists>doc. snd (addVocab env s u bookId w d) = s\<lparr>books := save (Date_now env) b doc (books s)\<rparr>
               \<and> currentPage doc = currentPage b \<and> totalPages doc = totalPages b"
        using Some \<open>castObjectId env bookId = Some i\<close>
        by (auto simp: addVocab_def Let_def split: option.splits outcome.splits if_splits)
      with Some show ?thesis by blast
    qed
  qed
qed

lemma updateVocab_shape:
  "snd (updateVocab env s u bookId vocabId w d) = s \<or>
   (\<exists>i b doc. findOne i u (books s) = Some b \<and> currentPage doc = currentPage b
        \<and> totalPages doc = totalPages b
        \<and> snd (updateVocab env s u bookId vocabId w d) = s\<lparr>books := save (Date_now env) b doc (books s)\<rparr>)"
proof (cases "castObjectId env bookId")
  case None
  then show ?thesis by (simp add: updateVocab_def)
next
  case (Some i)
  show ?thesis
  proof (cases "findOne i u (books s)")
    case None
    with Some show ?thesis
      by (simp add: updateVocab_def Let_def split: option.splits outcome.splits)
  next
    case (Some b)
    show ?thesis
    proof (cases "snd (updateVocab env s u bookId vocabId w d) = s")
      case True
      then show ?thesis ..
    next
      case False
      then have "\<exists>doc. snd (updateVocab env s u bookId vocabId w d) = s\<lparr>books := save (Date_now env) b doc (books s)\<rparr>
               \<and> currentPage doc = currentPage b \<and> totalPages doc = totalPages b"
        using Some \<open>castObjectId env bookId = Some i\<close>
        by (auto simp: updateVocab_def Let_def split: option.splits outcome.splits if_splits)
      with Some show ?thesis by blast
    qed
  qed
qed

lemma deleteVocab_shape:
  "snd (deleteVocab env s u bookId vocabId) = s \<or>
   (\<exists>i b doc. findOne i u (books s) = Some b \<and> currentPage doc = currentPage b
        \<and> totalPages doc = totalPages b
        \<and> snd (deleteVocab env s u bookId vocabId) = s\<lparr>books := save (Date_now env) b doc (books s)\<rparr>)"
proof (cases "castObjectId env bookId")
  case None
  then show ?thesis by (simp add: deleteVocab_def)
next
  case (Some i)
  show ?thesis
  proof (cases "findOne i u (books s)")
    case None
    with Some show ?thesis
      by (simp add: deleteVocab_def Let_def split: option.splits outcome.splits)
  next
    case (Some b)
    show ?thesis
    proof (cases "snd (deleteVocab env s u bookId vocabId) = s")
      case True
      then show ?thesis ..
    next
      case False
      then have "\<exists>doc. snd (deleteVocab env s u bookId vocabId) = s\<lparr>books := save (Date_now env) b doc (books s)\<rparr>
               \<and> currentPage doc = currentPage b \<and> totalPages doc = totalPages b"
        using Some \<open>castObjectId env bookId = Some i\<close>
        by (auto simp: deleteVocab_def Let_def split: option.splits outcome.splits if_splits)
      with Some show ?thesis by blast
    qed
  qed
qed

lemma addNote_shape:
  "snd (addNote env s u bookId t c) = s \<or>
   (\<exists>i b doc. findOne i u (books s) = Some b \<and> currentPage doc = currentPage b
        \<and> totalPages doc = totalPages b
        \<and> snd (addNote env s u bookId t c) = s\<lparr>books := save (Date_now env) b doc (books s)\<rparr>)"
proof (cases "castObjectId env bookId")
  case None
  then show ?thesis by (simp add: addNote_def)
next
  case (Some i)
  show ?thesis
  proof (cases "findOne i u (books s)")
    case None
    with Some show ?thesis
      by (simp add: addNote_def Let_def split: option.splits outcome.splits)
  next
    case (Some b)
    show ?thesis
    proof (cases "snd (addNote env s u bookId t c) = s")
      case True
      then show ?thesis ..
    next
      case False
      then have "\<exists>doc. snd (addNote env s u bookId t c) = s\<lparr>books := save (Date_now env) b doc (books s)\<rparr>
               \<and> currentPage doc = currentPage b \<and> totalPages doc = totalPages b"
        using Some \<open>castObjectId env bookId = Some i\<close>
        by (auto simp: addNote_def Let_def split: option.splits outcome.splits if_splits)
      with Some show ?thesis by blast
    qed
  qed
qed

lemma updateNote_shape:
  "snd (updateNote env s u bookId noteId t c) = s \<or>
   (\<exists>i b doc. findOne i u (books s) = Some b \<and> currentPage doc = currentPage b
        \<and> totalPages doc = totalPages b
        \<and> snd (updateNote env s u bookId noteId t c) = s\<lparr>books := save (Date_now env) b doc (books s)\<rparr>)"
proof (cases "castObjectId env bookId")
  case None
  then show ?thesis by (simp add: updateNote_def)
next
  case (Some i)
  show ?thesis
  proof (cases "findOne i u (books s)")
    case None
    with Some show ?thesis
      by (simp add: updateNote_def Let_def split: option.splits outcome.splits)
  next
    case (Some b)
    show ?thesis
    proof (cases "snd (updateNote env s u bookId noteId t c) = s")
      case True
      then show ?thesis ..
    next
      case False
      then have "\<exists>doc. snd (updateNote env s u bookId noteId t c) = s\<lparr>books := save (Date_now env) b doc (books s)\<rparr>
               \<and> currentPage doc = currentPage b \<and> totalPages doc = totalPages b"
        using Some \<open>castObjectId env bookId = Some i\<close>
        by (auto simp: updateNote_def Let_def split: option.splits outcome.splits if_splits)
      with Some show ?thesis by blast
    qed
  qed
qed

lemma deleteNote_shape:
  "snd (deleteNote env s u bookId noteId) = s \<or>
   (\<exists>i b doc. findOne i u (books s) = Some b \<and> currentPage doc = currentPage b
        \<and> totalPages doc = totalPages b
        \<and> snd (deleteNote env s u bookId noteId) = s\<lparr>books := save (Date_now env) b doc (books s)\<rparr>)"
proof (cases "castObjectId env bookId")
  case None
  then show ?thesis by (simp add: deleteNote_def)
next
  case (Some i)
  show ?thesis
  proof (cases "findOne i u (books s)")
    case None
    with Some show ?thesis
      by (simp add: deleteNote_def Let_def split: option.splits outcome.splits)
  next
    case (Some b)
    show ?thesis
    proof (cases "snd (deleteNote env s u bookId noteId) = s")
      case True
      then show ?thesis ..
    next
      case False
      then have "\<exists>doc. snd (deleteNote env s u bookId noteId) = s\<lparr>books := save (Date_now env) b doc (books s)\<rparr>
               \<and> currentPage doc = currentPage b \<and> totalPages doc = totalPages b"
        using Some \<open>castObjectId env bookId = Some i\<close>
        by (auto simp: deleteNote_def Let_def split: option.splits outcome.splits if_splits)
      with Some show ?thesis by blast
    qed
  qed
qed

lemma shape_pagesOk:
  assumes "\<forall>x\<in>set (books s). pagesOk x"
    and "s' = s \<or>
      (\<exists>i b doc. findOne i u (books s) = Some b \<and> currentPage doc = currentPage b
        \<and> totalPages doc = totalPages b
        \<and> s' = s\<lparr>books := save now b doc (books s)\<rparr>)"
  shows "\<forall>x\<in>set (books s'). pagesOk x"
proof (cases "s' = s")
  case True
  with assms(1) show ?thesis by simp
next
  case False
  with assms(2) obtain i b d where found: "findOne i u (books s) = Some b"
    and pages: "currentPage d = currentPage b" "totalPages d = totalPages b"
    and s': "s' = s\<lparr>books := save now b d (books s)\<rparr>"
    by blast
  from assms(1) found have "pagesOk b" by (rule loaded_pagesOk)
  with pages have "pagesOk d" by (rule pagesOk_fields)
  with assms(1) have "\<forall>x\<in>set (save now b d (books s)). pagesOk x"
    by (rule save_pagesOk)
  then show ?thesis by (simp add: s')
qed

lemma deleteBook_books:
  "set (books (snd (deleteBook env s u bookId))) \<subseteq> set (books s)"
  using findByIdAndDelete_set
  by (auto simp: deleteBook_def Let_def destroyed_def split: option.splits outcome.splits)

lemma route_pagesOk:
  assumes "\<forall>x\<in>set (books s). pagesOk x"
  shows "\<forall>x\<in>set (books (snd (route env s u r))). pagesOk x"
proof (cases r)
  case GetBooks
  with assms show ?thesis by (simp add: get_books_def split: outcome.splits)
next
  case (UpdateProgress bookId page)
  with updateProgress_pagesOk [OF assms] show ?thesis by simp
next
  case (AddVocab bookId w d)
  with shape_pagesOk [OF assms addVocab_shape] show ?thesis by simp
next
  case (UpdateVocab bookId vocabId w d)
  with shape_pagesOk [OF assms updateVocab_shape] show ?thesis by simp
next
  case (DeleteVocab bookId vocabId)
  with shape_pagesOk [OF assms deleteVocab_shape] show ?thesis by simp
next
  case (AddNote bookId t c)
  with shape_pagesOk [OF assms addNote_shape] show ?thesis by simp
next
  case (GetNotes bookId)
  with assms show ?thesis
    by (simp add: getNotes_def split: option.splits outcome.splits)
next
  case (UpdateNote bookId noteId t c)
  with shape_pagesOk [OF assms updateNote_shape] show ?thesis by simp
next
  case (DeleteNote bookId noteId)
  with shape_pagesOk [OF assms deleteNote_shape] show ?thesis by simp
next
  case (DeleteBook bookId)
  with assms deleteBook_books [of env s u bookId] show ?thesis by auto
qed

lemma upload_try_books:
  "books (snd (upload_try env s u f t)) = books s \<or>
   (\<exists>nb. books (snd (upload_try env s u f t)) = books s @ [nb]
        \<and> book_id nb = newObjectId env \<and> owner nb = u \<and> currentPage nb = 0 \<and> 0 \<le> totalPages nb)"
proof (cases "fs_readFile env")
  case Rejects
  then show ?thesis by (simp add: upload_try_def)
next
  case (Resolves x)
  note read = this
  show ?thesis
  proof (cases "pdf env")
    case Rejects
    with read show ?thesis by (simp add: upload_try_def)
  next
    case (Resolves numpages)
    note parsed = this
    show ?thesis
    proof (cases "cloudinary_upload env")
      case Rejects
      with read parsed show ?thesis by (simp add: upload_try_def Let_def)
    next
      case (Resolves p)
      obtain url pid where "p = (url, pid)" by (cases p)
      with Resolves read parsed show ?thesis
        by (cases "db_write env") (simp_all add: upload_try_def Let_def new_Book_def)
    qed
  qed
qed

lemma upload_books:
  "books (snd (upload_book env s u pdf_part t)) = books s \<or>
   (\<exists>nb. books (snd (upload_book env s u pdf_part t)) = books s @ [nb]
        \<and> book_id nb = newObjectId env \<and> owner nb = u \<and> currentPage nb = 0 \<and> 0 \<le> totalPages nb)"
proof (cases pdf_part)
  case None
  then show ?thesis by (simp add: upload_book_def)
next
  case (Some f)
  let ?s = "s\<lparr>uploads := path f # uploads s\<rparr>"
  have "books (snd (upload_book env s u pdf_part t)) = books s
      \<or> books (snd (upload_book env s u pdf_part t)) = books (snd (upload_try env ?s u f t))"
    using Some by (auto simp: upload_book_def split: prod.splits outcome.splits)
  with upload_try_books [of env ?s u f t] show ?thesis
    by auto
qed

lemma upload_pagesOk:
  assumes "\<forall>x\<in>set (books s). pagesOk x"
  shows "\<forall>x\<in>set (books (snd (upload_book env s u pdf_part t))). pagesOk x"
  using assms upload_books [of env s u pdf_part t] by (auto simp: pagesOk_def)

lemma upload_distinctIds:
  assumes "distinctIds s" and "newObjectId env \<notin> book_id ` set (books s)"
  shows "distinctIds (snd (upload_book env s u pdf_part t))"
  using assms upload_books [of env s u pdf_part t] by (auto simp: distinctIds_def)

section \<open>The percentage\<close>

subsection \<open>Rounding to a double\<close>

text \<open>
  \<open>toDouble\<close> of a rational in the normal range is within a relative error of
  \<open>2 ^ -53\<close> of it, so the quotient and the product of \<open>progressPercentage\<close> carry an
  error far below the distance of the exact value to the next half-integer, unless
  the exact value is a half-integer itself.
\<close>

lemma pow2_powi: "pow2 k = 2 powi k"
  by (simp add: pow2_def power_int_def inverse_eq_divide power_one_over)

lemma pow2_pos: "0 < pow2 k"
  by (simp add: pow2_powi)

lemma pow2_add: "pow2 (a + b) = pow2 a * pow2 b"
  by (simp add: pow2_powi power_int_add)

lemma pow2_less: "a < b \<Longrightarrow> pow2 a < pow2 b"
  by (simp add: pow2_powi power_int_strict_increasing)

lemma pow2_le: "a \<le> b \<Longrightarrow> pow2 a \<le> pow2 b"
  by (simp add: pow2_powi power_int_increasing)

lemma pow2_less_cancel: "pow2 a < pow2 b \<Longrightarrow> a < b"
  using pow2_le [of b a] by (cases "a < b") auto

lemma pow2_nat: "pow2 (int n) = 2 ^ n"
  by (simp add: pow2_def)

lemma roundTiesToEven_error: "\<bar>of_int (roundTiesToEven q) - q\<bar> \<le> 1 / 2"
proof -
  have "of_int \<lfloor>q\<rfloor> \<le> q" "q < of_int \<lfloor>q\<rfloor> + 1"
    by linarith+
  then show ?thesis
    by (auto simp: roundTiesToEven_def Let_def)
qed

lemma binaryExponent_bounds:
  assumes "0 < x"
  shows "pow2 (binaryExponent x) \<le> x \<and> x < pow2 (binaryExponent x + 1)"
proof -
  obtain n d where q: "quotient_of x = (n, d)"
    by (cases "quotient_of x")
  then have d: "0 < d" and x: "x = of_int n / of_int d"
    by (simp_all add: quotient_of_denom_pos quotient_of_div)
  with assms have n: "0 < n"
    by (simp add: zero_less_divide_iff)
  define bn where "bn = bitlen n"
  define bd where "bd = bitlen d"
  from bitlen_bounds [OF n] have "2 ^ nat (bn - 1) \<le> n" "n < 2 ^ nat bn"
    by (simp_all add: bn_def)
  then have "(of_int (2 ^ nat (bn - 1)) :: rat) \<le> of_int n" "(of_int n :: rat) < of_int (2 ^ nat bn)"
    by (simp_all only: of_int_le_iff of_int_less_iff)
  then have nb: "(2 ^ nat (bn - 1) :: rat) \<le> of_int n" "(of_int n :: rat) < 2 ^ nat bn"
    by simp_all
  from bitlen_bounds [OF d] have "2 ^ nat (bd - 1) \<le> d" "d < 2 ^ nat bd"
    by (simp_all add: bd_def)
  then have "(of_int (2 ^ nat (bd - 1)) :: rat) \<le> of_int d" "(of_int d :: rat) < of_int (2 ^ nat bd)"
    by (simp_all only: of_int_le_iff of_int_less_iff)
  then have db: "(2 ^ nat (bd - 1) :: rat) \<le> of_int d" "(of_int d :: rat) < 2 ^ nat bd"
    by simp_all
  have bn1: "1 \<le> bn" and bd1: "1 \<le> bd"
    using n d bitlen_eq_zero_iff [of n] bitlen_eq_zero_iff [of d] bitlen_nonneg [of n] bitlen_nonneg [of d]
    by (auto simp: bn_def bd_def)
  have pn: "pow2 (bn - 1) \<le> of_int n" "of_int n < pow2 bn"
    using nb bn1 by (simp_all add: pow2_def)
  have pd: "pow2 (bd - 1) \<le> of_int d" "of_int d < pow2 bd"
    using db bd1 by (simp_all add: pow2_def)
  have dpos: "(0::rat) < of_int d" using d by simp
  have upper: "x < pow2 (bn - bd + 1)"
  proof -
    have "of_int n * pow2 (bd - 1) < pow2 bn * of_int d"
      using pn(2) pd(1) pow2_pos [of "bd - 1"] n
      by (intro mult_less_le_imp_less) simp_all
    moreover have "pow2 bn = pow2 (bn - bd + 1) * pow2 (bd - 1)"
      by (simp add: pow2_add [symmetric])
    ultimately have "of_int n * pow2 (bd - 1) < pow2 (bn - bd + 1) * of_int d * pow2 (bd - 1)"
      by (simp add: mult_ac)
    then have "of_int n < pow2 (bn - bd + 1) * of_int d"
      using pow2_pos [of "bd - 1"] by simp
    then show ?thesis
      using dpos by (simp add: x pos_divide_less_eq)
  qed
  have lower: "pow2 (bn - bd - 1) \<le> x"
  proof -
    have "pow2 (bn - 1) * of_int d \<le> of_int n * pow2 bd"
      using pn(1) pd(2) pow2_pos [of "bn - 1"] dpos
      by (intro mult_mono) simp_all
    moreover have "pow2 (bn - 1) = pow2 (bn - bd - 1) * pow2 bd"
      by (simp add: pow2_add [symmetric])
    ultimately have "pow2 (bn - bd - 1) * of_int d * pow2 bd \<le> of_int n * pow2 bd"
      by (simp add: mult_ac)
    then have "pow2 (bn - bd - 1) * of_int d \<le> of_int n"
      using pow2_pos [of bd] by simp
    then show ?thesis
      using dpos by (simp add: x pos_le_divide_eq)
  qed
  have be: "binaryExponent x = (if pow2 (bn - bd) \<le> x then bn - bd else bn - bd - 1)"
    by (simp add: binaryExponent_def q bn_def bd_def Let_def)
  show ?thesis
  proof (cases "pow2 (bn - bd) \<le> x")
    case True
    with be upper show ?thesis by simp
  next
    case False
    with be lower show ?thesis by simp
  qed
qed

lemma toDouble_error:
  assumes "pow2 (- 1022) \<le> x" and "x < pow2 1023"
  shows "\<exists>r. toDouble x = Fin r \<and> \<bar>r - x\<bar> \<le> x / 2 ^ 53"
proof -
  have xpos: "0 < x"
    using assms(1) pow2_pos [of "- 1022"] by linarith
  define e where "e = binaryExponent x"
  have eb: "pow2 e \<le> x" "x < pow2 (e + 1)"
    using binaryExponent_bounds [OF xpos] by (simp_all add: e_def)
  have "pow2 (- 1022) < pow2 (e + 1)"
    using assms(1) eb(2) by linarith
  then have "- 1022 < e + 1"
    by (rule pow2_less_cancel)
  then have emin: "max e (- 1022) = e"
    by simp
  define u where "u = pow2 (e - 52)"
  have upos: "0 < u"
    by (simp add: u_def pow2_pos)
  define m where "m = roundTiesToEven (x / u)"
  define r where "r = of_int m * u"
  have "\<bar>of_int m - x / u\<bar> \<le> 1 / 2"
    unfolding m_def by (rule roundTiesToEven_error)
  then have "\<bar>of_int m - x / u\<bar> * u \<le> 1 / 2 * u"
    using upos by (intro mult_right_mono) simp_all
  moreover have "\<bar>of_int m - x / u\<bar> * u = \<bar>r - x\<bar>"
  proof -
    have "r - x = (of_int m - x / u) * u"
      using upos by (simp add: r_def field_simps)
    then show ?thesis
      using upos by (simp add: abs_mult)
  qed
  ultimately have ru: "\<bar>r - x\<bar> \<le> u / 2"
    by simp
  have "pow2 e = pow2 (e - 52) * pow2 52"
    by (simp add: pow2_add [symmetric])
  also have "pow2 52 = 2 ^ 52"
    using pow2_nat [of 52] by simp
  finally have "u / 2 = pow2 e / 2 ^ 53"
    by (simp add: u_def)
  also have "\<dots> \<le> x / 2 ^ 53"
    using eb(1) by (simp add: divide_right_mono)
  finally have half: "u / 2 \<le> x / 2 ^ 53" .
  with ru have err: "\<bar>r - x\<bar> \<le> x / 2 ^ 53"
    by linarith
  have "x / 2 ^ 53 \<le> x"
    using xpos by (simp add: field_simps)
  with err have "r \<le> 2 * x"
    by linarith
  also have "\<dots> < 2 * pow2 1023"
    using assms(2) by simp
  also have "2 * pow2 1023 = pow2 1024"
    using pow2_add [of 1 1023] by (simp add: pow2_def)
  finally have fin: "\<not> pow2 1024 \<le> r"
    by simp
  have "toDouble x = Fin r"
    using xpos fin emin
    by (simp add: toDouble_def Let_def e_def [symmetric] u_def [symmetric] m_def [symmetric]
        r_def [symmetric])
  with err show ?thesis by blast
qed

lemma percent_error:
  fixes c t :: int
  assumes "0 < c" and "c \<le> 2 ^ 40" and "0 < t" and "t \<le> 2 ^ 40"
  shows "\<exists>p. times_number (divide_number (Fin (of_int c)) (Fin (of_int t))) (Fin 100) = Fin p
           \<and> \<bar>p - of_int c / of_int t * 100\<bar> \<le> 300 * (of_int c / of_int t) / 2 ^ 53"
proof -
  define x :: rat where "x = of_int c / of_int t"
  have tpos: "(0::rat) < of_int t" and cpos: "(0::rat) < of_int c"
    using assms by simp_all
  have "(of_int t :: rat) \<le> of_int (2 ^ 40)"
    using assms(4) by (simp only: of_int_le_iff)
  then have t40: "(of_int t :: rat) \<le> 2 ^ 40"
    by simp
  have "(of_int c :: rat) \<le> of_int (2 ^ 40)"
    using assms(2) by (simp only: of_int_le_iff)
  then have c40: "(of_int c :: rat) \<le> 2 ^ 40"
    by simp
  have c1: "(1 :: rat) \<le> of_int c"
    using assms(1) by (simp add: int_one_le_iff_zero_less)
  have t1: "(1 :: rat) \<le> of_int t"
    using assms(3) by (simp add: int_one_le_iff_zero_less)
  have "1 / of_int t \<le> x"
    using tpos c1 by (simp add: x_def divide_right_mono)
  moreover have "(1 :: rat) / 2 ^ 40 \<le> 1 / of_int t"
    using tpos t40 by (simp add: frac_le)
  ultimately have xlow: "1 / 2 ^ 40 \<le> x"
    by linarith
  have "x \<le> of_int c / 1"
    unfolding x_def using t1 cpos by (intro divide_left_mono) simp_all
  with c40 have xhigh: "x \<le> 2 ^ 40"
    by simp
  have p40: "pow2 (- 40) = 1 / 2 ^ 40" and p41: "pow2 (- 41) = 1 / 2 ^ 41"
    by (simp_all add: pow2_def)
  have "pow2 (- 1022) \<le> pow2 (- 40)"
    by (rule pow2_le) simp
  with xlow have lo: "pow2 (- 1022) \<le> x"
    by (simp add: p40)
  have "pow2 40 < pow2 1023"
    by (rule pow2_less) simp
  moreover have "pow2 40 = 2 ^ 40"
    using pow2_nat [of 40] by simp
  ultimately have hi: "x < pow2 1023"
    using xhigh by linarith
  from toDouble_error [OF lo hi] obtain q where
    q: "toDouble x = Fin q" and qe: "\<bar>q - x\<bar> \<le> x / 2 ^ 53"
    by blast
  have xpos: "0 < x"
  proof -
    have "(0::rat) < 1 / 2 ^ 40" by simp
    with xlow show ?thesis by linarith
  qed
  have "x / 2 ^ 53 \<le> x / 2"
    using xpos by (simp add: field_simps)
  with qe have qlow: "x / 2 \<le> q" and qhigh: "q \<le> 2 * x"
    using xpos by linarith+
  have "pow2 (- 1022) \<le> pow2 (- 41)"
    by (rule pow2_le) simp
  moreover have "pow2 (- 41) \<le> q * 100"
  proof -
    have "(1::rat) / 2 ^ 41 \<le> x / 2" using xlow by simp
    with qlow xpos have "1 / 2 ^ 41 \<le> q" "0 \<le> q" by linarith+
    then have "1 / 2 ^ 41 \<le> q * 100" by linarith
    then show ?thesis by (simp only: p41)
  qed
  ultimately have lo2: "pow2 (- 1022) \<le> q * 100"
    by linarith
  have "pow2 48 < pow2 1023"
    by (rule pow2_less) simp
  moreover have "q * 100 \<le> pow2 48"
  proof -
    have "pow2 48 = 2 ^ 48" using pow2_nat [of 48] by simp
    moreover have "q * 100 \<le> 2 ^ 48" using qhigh xhigh by simp
    ultimately show ?thesis by simp
  qed
  ultimately have hi2: "q * 100 < pow2 1023"
    by linarith
  from toDouble_error [OF lo2 hi2] obtain p where
    p: "toDouble (q * 100) = Fin p" and pe: "\<bar>p - q * 100\<bar> \<le> q * 100 / 2 ^ 53"
    by blast
  have run: "times_number (divide_number (Fin (of_int c)) (Fin (of_int t))) (Fin 100) = Fin p"
    using tpos q p by (simp add: x_def)
  have "q * 100 \<le> 200 * x"
    using qhigh by linarith
  then have "q * 100 / 2 ^ 53 \<le> 200 * x / 2 ^ 53"
    by (rule divide_right_mono) simp
  with pe have b1: "\<bar>p - q * 100\<bar> \<le> 200 * x / 2 ^ 53"
    by (rule order_trans)
  have b2: "\<bar>q * 100 - x * 100\<bar> \<le> 100 * x / 2 ^ 53"
  proof -
    have "\<bar>q - x\<bar> * 100 \<le> x / 2 ^ 53 * 100"
      using qe by (rule mult_right_mono) simp
    moreover have "\<bar>q * 100 - x * 100\<bar> = \<bar>q - x\<bar> * 100"
      using abs_mult [of "q - x" 100] by (simp only: left_diff_distrib abs_numeral)
    ultimately show ?thesis by simp
  qed
  have "\<bar>p - x * 100\<bar> \<le> \<bar>p - q * 100\<bar> + \<bar>q * 100 - x * 100\<bar>"
  proof -
    have "\<bar>a - c\<bar> \<le> \<bar>a - b\<bar> + \<bar>b - c\<bar>" for a b c :: rat
      by linarith
    then show ?thesis .
  qed
  also have "\<dots> \<le> 200 * x / 2 ^ 53 + 100 * x / 2 ^ 53"
    using b1 b2 by (rule add_mono)
  also have "\<dots> = 300 * x / 2 ^ 53"
    by simp
  finally have "\<bar>p - x * 100\<bar> \<le> 300 * x / 2 ^ 53" .
  then have "\<bar>p - of_int c / of_int t * 100\<bar> \<le> 300 * (of_int c / of_int t) / 2 ^ 53"
    by (simp only: x_def)
  with run show ?thesis
    by blast
qed

subsection \<open>Rounding to the nearest integer\<close>

lemma spec_progressPercentage_div:
  assumes "0 < t"
  shows "spec_progressPercentage c t = (200 * c + t) div (2 * t)"
proof -
  have "(of_int c / of_int t * 100 + 1 / 2 :: rat) = of_int (200 * c + t) / of_int (2 * t)"
    using assms by (simp add: field_simps)
  then have "\<lfloor>of_int c / of_int t * 100 + 1 / 2 :: rat\<rfloor> = (200 * c + t) div (2 * t)"
    by (simp only: floor_divide_of_int_eq)
  with assms show ?thesis
    by (simp add: spec_progressPercentage_def round_def)
qed

lemma floor_near:
  fixes y eps :: rat and N D :: int
  assumes "0 < D" and "\<bar>y - of_int N / of_int D\<bar> \<le> eps" and "eps < 1 / of_int D"
  shows "N mod D \<noteq> 0 \<Longrightarrow> \<lfloor>y\<rfloor> = N div D"
    and "N mod D = 0 \<Longrightarrow> \<lfloor>y\<rfloor> = N div D \<or> \<lfloor>y\<rfloor> = N div D - 1"
proof -
  define k where "k = N div D"
  define m where "m = N mod D"
  have Dpos: "(0::rat) < of_int D"
    using assms(1) by simp
  have "N = k * D + m"
    by (simp add: k_def m_def)
  then have "(of_int N :: rat) = of_int k * of_int D + of_int m"
    by (simp only: of_int_add of_int_mult)
  then have split: "(of_int N :: rat) / of_int D = of_int k + of_int m / of_int D"
    using Dpos by (simp add: field_simps)
  have D1: "1 / (of_int D :: rat) \<le> 1"
    using assms(1) by simp
  show "\<lfloor>y\<rfloor> = N div D" if "N mod D \<noteq> 0"
  proof -
    have "0 \<le> m" "m < D"
      using assms(1) by (simp_all add: m_def)
    with that have "1 \<le> m" "m \<le> D - 1"
      by (simp_all add: m_def)
    then have "(of_int 1 :: rat) \<le> of_int m" "(of_int m :: rat) \<le> of_int (D - 1)"
      by (simp_all only: of_int_le_iff)
    then have "(1::rat) \<le> of_int m" "(of_int m :: rat) \<le> of_int D - 1"
      by simp_all
    then have "1 / of_int D \<le> (of_int m :: rat) / of_int D"
      and "(of_int m :: rat) / of_int D \<le> (of_int D - 1) / of_int D"
      using Dpos by (simp_all add: divide_right_mono)
    moreover have "(of_int D - 1 :: rat) / of_int D = 1 - 1 / of_int D"
      using Dpos by (simp add: field_simps)
    ultimately have "of_int k \<le> y" "y < of_int k + 1"
      using assms(2,3) split by linarith+
    then have "\<lfloor>y\<rfloor> = k"
      by (simp add: floor_eq_iff)
    then show ?thesis by (simp only: k_def)
  qed
  show "\<lfloor>y\<rfloor> = N div D \<or> \<lfloor>y\<rfloor> = N div D - 1" if "N mod D = 0"
  proof -
    have "(of_int N :: rat) / of_int D = of_int k"
      using split that by (simp add: m_def)
    with assms(2,3) D1 have "of_int k - 1 \<le> y" "y < of_int k + 1"
      by linarith+
    then have "\<lfloor>y\<rfloor> = k \<or> \<lfloor>y\<rfloor> = k - 1"
      by (cases "of_int k \<le> y") (simp_all add: floor_eq_iff)
    then show ?thesis by (simp only: k_def)
  qed
qed

subsection \<open>The percentage against its exact value\<close>

lemma progressPercentage_near:
  assumes "0 \<le> currentPage b" and "currentPage b \<le> 2 ^ 40"
    and "0 < totalPages b" and "totalPages b \<le> 2 ^ 40"
  shows "\<exists>y eps :: rat. progressPercentage b = Fin (of_int \<lfloor>y\<rfloor>)
           \<and> \<bar>y - of_int (200 * currentPage b + totalPages b) / of_int (2 * totalPages b)\<bar> \<le> eps
           \<and> eps < 1 / of_int (2 * totalPages b)"
proof (cases "currentPage b = 0")
  case True
  have tpos: "(0::rat) < of_int (totalPages b)"
    using assms(3) by simp
  have "\<lfloor>1 / 2 :: rat\<rfloor> = 0"
    by (simp add: floor_eq_iff)
  then have "progressPercentage b = Fin (of_int \<lfloor>1 / 2 :: rat\<rfloor>)"
    using True by (simp add: progressPercentage_start)
  moreover have "(of_int (200 * currentPage b + totalPages b) :: rat) / of_int (2 * totalPages b) = 1 / 2"
    using True tpos by simp
  then have "\<bar>1 / 2 - of_int (200 * currentPage b + totalPages b) / of_int (2 * totalPages b)\<bar> \<le> (0::rat)"
    by simp
  moreover have "(0::rat) < 1 / of_int (2 * totalPages b)"
    using tpos by simp
  ultimately show ?thesis
    by blast
next
  case False
  define c where "c = currentPage b"
  define t where "t = totalPages b"
  have c: "0 < c" "c \<le> 2 ^ 40" and t: "0 < t" "t \<le> 2 ^ 40"
    using assms False by (simp_all add: c_def t_def)
  have tpos: "(0::rat) < of_int t"
    using t(1) by simp
  from percent_error [OF c t] obtain p where
    run: "times_number (divide_number (Fin (of_int c)) (Fin (of_int t))) (Fin 100) = Fin p" and
    err: "\<bar>p - of_int c / of_int t * 100\<bar> \<le> 300 * (of_int c / of_int t) / 2 ^ 53"
    by blast
  have "progressPercentage b = Fin (of_int \<lfloor>p + 1 / 2\<rfloor>)"
    using t(1) run by (simp add: progressPercentage_def c_def t_def)
  moreover have "(of_int (200 * c + t) :: rat) / of_int (2 * t) = of_int c / of_int t * 100 + 1 / 2"
    using tpos by (simp add: field_simps)
  then have "\<bar>p + 1 / 2 - of_int (200 * c + t) / of_int (2 * t)\<bar> \<le> 300 * (of_int c / of_int t) / 2 ^ 53"
    using err by simp
  moreover have "300 * (of_int c / of_int t) / 2 ^ 53 < (1 :: rat) / of_int (2 * t)"
  proof -
    have "(of_int c :: rat) \<le> of_int (2 ^ 40)"
      using c(2) by (simp only: of_int_le_iff)
    then have "(of_int c :: rat) * 600 / 2 ^ 53 < 1"
      by simp
    moreover have "(0::rat) < 1 / of_int (2 * t)"
      using tpos by simp
    ultimately have "of_int c * 600 / 2 ^ 53 * (1 / of_int (2 * t)) < 1 * ((1 :: rat) / of_int (2 * t))"
      by (rule mult_strict_right_mono)
    moreover have "300 * (of_int c / of_int t) / 2 ^ 53 = (of_int c :: rat) * 600 / 2 ^ 53 * (1 / of_int (2 * t))"
      by simp
    ultimately show ?thesis
      by simp
  qed
  ultimately show ?thesis
    unfolding c_def t_def by blast
qed

lemma progressPercentage_exact:
  assumes "0 \<le> currentPage b" and "currentPage b \<le> 2 ^ 40"
    and "0 < totalPages b" and "totalPages b \<le> 2 ^ 40"
  shows "(200 * currentPage b + totalPages b) mod (2 * totalPages b) \<noteq> 0 \<Longrightarrow>
           progressPercentage b = Fin (of_int (spec_progressPercentage (currentPage b) (totalPages b)))"
    and "(200 * currentPage b + totalPages b) mod (2 * totalPages b) = 0 \<Longrightarrow>
           progressPercentage b = Fin (of_int (spec_progressPercentage (currentPage b) (totalPages b)))
           \<or> progressPercentage b = Fin (of_int (spec_progressPercentage (currentPage b) (totalPages b) - 1))"
proof -
  from progressPercentage_near [OF assms] obtain y eps :: rat where
    run: "progressPercentage b = Fin (of_int \<lfloor>y\<rfloor>)" and
    err: "\<bar>y - of_int (200 * currentPage b + totalPages b) / of_int (2 * totalPages b)\<bar> \<le> eps" and
    eps: "eps < 1 / of_int (2 * totalPages b)"
    by blast
  have D: "0 < 2 * totalPages b"
    using assms(3) by simp
  note spec = spec_progressPercentage_div [OF assms(3), of "currentPage b"]
  show "progressPercentage b = Fin (of_int (spec_progressPercentage (currentPage b) (totalPages b)))"
    if "(200 * currentPage b + totalPages b) mod (2 * totalPages b) \<noteq> 0"
    using floor_near(1) [OF D err eps that] run by (simp only: spec)
  show "progressPercentage b = Fin (of_int (spec_progressPercentage (currentPage b) (totalPages b)))
      \<or> progressPercentage b = Fin (of_int (spec_progressPercentage (currentPage b) (totalPages b) - 1))"
    if "(200 * currentPage b + totalPages b) mod (2 * totalPages b) = 0"
    using floor_near(2) [OF D err eps that] run by (auto simp only: spec)
qed

text \<open>
  C2 (amended). A Book has no percentage field: the percentage is the function
  \<open>progressPercentage\<close> of the document, applied when the document is serialised
  (\<open>toJSON\<close>, and so in every element of the list \<^verbatim>\<open>GET /books\<close> answers), and it depends
  on the two page fields only. It is 0 when \<^verbatim>\<open>totalPages\<close> is 0, whatever the current page.
  Otherwise it is \<^verbatim>\<open>Math.round\<close> of the product, rounded to a double, of 100 and the
  quotient, rounded to a double, of the two page counts. For page counts from 0 to
  \<open>2 ^ 40\<close> with \<^verbatim>\<open>totalPages > 0\<close> this is the exact
  \<open>round (currentPage / totalPages * 100)\<close>, a tie going up, whenever the exact value
  \<open>currentPage / totalPages * 100\<close> is not half-way between two integers; when it is
  half-way, the percentage is that rounded value or the integer below it.
\<close>

theorem progressPercentage_formula:
  "(totalPages b = 0 \<longrightarrow>
      progressPercentage b = Fin 0 \<and> spec_progressPercentage (currentPage b) (totalPages b) = 0)
   \<and> (totalPages b \<noteq> 0 \<longrightarrow>
        progressPercentage b =
          Math_round (times_number
            (divide_number (Fin (of_int (currentPage b))) (Fin (of_int (totalPages b)))) (Fin 100)))
   \<and> (0 < totalPages b \<and> totalPages b \<le> 2 ^ 40 \<and> 0 \<le> currentPage b \<and> currentPage b \<le> 2 ^ 40 \<longrightarrow>
        ((200 * currentPage b + totalPages b) mod (2 * totalPages b) \<noteq> 0 \<longrightarrow>
           progressPercentage b = Fin (of_int (spec_progressPercentage (currentPage b) (totalPages b))))
        \<and> ((200 * currentPage b + totalPages b) mod (2 * totalPages b) = 0 \<longrightarrow>
             progressPercentage b = Fin (of_int (spec_progressPercentage (currentPage b) (totalPages b)))
             \<or> progressPercentage b = Fin (of_int (spec_progressPercentage (currentPage b) (totalPages b) - 1))))
   \<and> toJSON b = (b, progressPercentage b)
   \<and> (\<forall>b'. totalPages b' = totalPages b \<and> currentPage b' = currentPage b \<longrightarrow>
         progressPercentage b' = progressPercentage b)
   \<and> (\<forall>l. fst (get_books env s u) = respond 200 (BooksJson l) \<longrightarrow>
         l = map (\<lambda>d. (d, progressPercentage d)) (find_sorted u (books s)))"
proof -
  have zero: "totalPages b = 0 \<longrightarrow>
      progressPercentage b = Fin 0 \<and> spec_progressPercentage (currentPage b) (totalPages b) = 0"
    by (simp add: progressPercentage_def spec_progressPercentage_def)
  have code: "totalPages b \<noteq> 0 \<longrightarrow>
        progressPercentage b =
          Math_round (times_number
            (divide_number (Fin (of_int (currentPage b))) (Fin (of_int (totalPages b)))) (Fin 100))"
    by (simp add: progressPercentage_def)
  have exact: "0 < totalPages b \<and> totalPages b \<le> 2 ^ 40 \<and> 0 \<le> currentPage b \<and> currentPage b \<le> 2 ^ 40 \<longrightarrow>
        ((200 * currentPage b + totalPages b) mod (2 * totalPages b) \<noteq> 0 \<longrightarrow>
           progressPercentage b = Fin (of_int (spec_progressPercentage (currentPage b) (totalPages b))))
        \<and> ((200 * currentPage b + totalPages b) mod (2 * totalPages b) = 0 \<longrightarrow>
             progressPercentage b = Fin (of_int (spec_progressPercentage (currentPage b) (totalPages b)))
             \<or> progressPercentage b = Fin (of_int (spec_progressPercentage (currentPage b) (totalPages b) - 1)))"
  proof (intro impI conjI)
    assume "0 < totalPages b \<and> totalPages b \<le> 2 ^ 40 \<and> 0 \<le> currentPage b \<and> currentPage b \<le> 2 ^ 40"
      and "(200 * currentPage b + totalPages b) mod (2 * totalPages b) \<noteq> 0"
    then show "progressPercentage b = Fin (of_int (spec_progressPercentage (currentPage b) (totalPages b)))"
      by (intro progressPercentage_exact(1)) simp_all
  next
    assume "0 < totalPages b \<and> totalPages b \<le> 2 ^ 40 \<and> 0 \<le> currentPage b \<and> currentPage b \<le> 2 ^ 40"
      and "(200 * currentPage b + totalPages b) mod (2 * totalPages b) = 0"
    then show "progressPercentage b = Fin (of_int (spec_progressPercentage (currentPage b) (totalPages b)))
        \<or> progressPercentage b = Fin (of_int (spec_progressPercentage (currentPage b) (totalPages b) - 1))"
      by (intro progressPercentage_exact(2)) simp_all
  qed
  have read: "toJSON b = (b, progressPercentage b)"
    by (simp add: toJSON_def)
  have pages: "\<forall>b'. totalPages b' = totalPages b \<and> currentPage b' = currentPage b \<longrightarrow>
         progressPercentage b' = progressPercentage b"
    by (simp add: progressPercentage_def)
  have listed: "\<forall>l. fst (get_books env s u) = respond 200 (BooksJson l) \<longrightarrow>
         l = map (\<lambda>d. (d, progressPercentage d)) (find_sorted u (books s))"
    by (cases "db_query env") (auto simp: get_books_def respond_def toJSON_def fun_eq_iff)
  from zero code exact read pages listed show ?thesis
    by (intro conjI)
qed

theorem progressPercentage_formula_witness:
  "progressPercentage book1 = Fin 50 \<and> spec_progressPercentage 5 10 = 50
   \<and> progressPercentage book2 = Fin 0 \<and> currentPage book2 = 7
   \<and> (progressPercentage (book1\<lparr>totalPages := 40, currentPage := 23\<rparr>) = Fin 58
        \<or> progressPercentage (book1\<lparr>totalPages := 40, currentPage := 23\<rparr>) = Fin 57)
   \<and> progressPercentage (book2\<lparr>totalPages := 10, currentPage := 5\<rparr>) = progressPercentage book1
   \<and> fst (get_books env0 s0 1) = respond 200 (BooksJson [(book1, Fin 50)])"
proof -
  let ?tie = "book1\<lparr>totalPages := 40, currentPage := 23\<rparr>"
  have pre: "0 < totalPages book1 \<and> totalPages book1 \<le> 2 ^ 40
      \<and> 0 \<le> currentPage book1 \<and> currentPage book1 \<le> 2 ^ 40"
    by (simp add: book1_def)
  have off: "(200 * currentPage book1 + totalPages book1) mod (2 * totalPages book1) \<noteq> 0"
    by (simp add: book1_def)
  have fifty: "spec_progressPercentage 5 10 = 50"
    by (simp add: spec_progressPercentage_div)
  from progressPercentage_formula [where b = book1, THEN conjunct2, THEN conjunct2, THEN conjunct1,
      rule_format, OF pre, THEN conjunct1, rule_format, OF off]
  have a: "progressPercentage book1 = Fin 50"
    by (simp add: book1_pages fifty)
  have none: "totalPages book2 = 0"
    by (simp add: book2_def)
  from progressPercentage_formula [where b = book2, THEN conjunct1, rule_format, OF none]
  have b: "progressPercentage book2 = Fin 0"
    by (rule conjunct1)
  have seven: "currentPage book2 = 7"
    by (simp add: book2_def)
  have pre': "0 < totalPages ?tie \<and> totalPages ?tie \<le> 2 ^ 40 \<and> 0 \<le> currentPage ?tie \<and> currentPage ?tie \<le> 2 ^ 40"
    by simp
  have on: "(200 * currentPage ?tie + totalPages ?tie) mod (2 * totalPages ?tie) = 0"
    by simp
  have eight: "spec_progressPercentage 23 40 = 58"
    by (simp add: spec_progressPercentage_div)
  from progressPercentage_formula [where b = ?tie, THEN conjunct2, THEN conjunct2, THEN conjunct1,
      rule_format, OF pre', THEN conjunct2, rule_format, OF on]
  have c: "progressPercentage ?tie = Fin 58 \<or> progressPercentage ?tie = Fin 57"
    by (simp add: eight)
  have same: "totalPages (book2\<lparr>totalPages := 10, currentPage := 5\<rparr>) = totalPages book1
      \<and> currentPage (book2\<lparr>totalPages := 10, currentPage := 5\<rparr>) = currentPage book1"
    by (simp add: book1_pages)
  from progressPercentage_formula [where b = book1, THEN conjunct2, THEN conjunct2, THEN conjunct2,
      THEN conjunct2, THEN conjunct1, rule_format, OF same]
  have d: "progressPercentage (book2\<lparr>totalPages := 10, currentPage := 5\<rparr>) = progressPercentage book1" .
  have listed: "find_sorted 1 (books s0) = [book1]"
    by code_simp
  define l where "l = map toJSON (find_sorted 1 (books s0))"
  have l: "fst (get_books env0 s0 1) = respond 200 (BooksJson l)"
    using env0_resolves(1) by (simp add: get_books_def l_def)
  from progressPercentage_formula [where env = env0 and s = s0 and u = 1, THEN conjunct2, THEN conjunct2,
      THEN conjunct2, THEN conjunct2, THEN conjunct2, rule_format, OF l]
  have "l = [(book1, Fin 50)]"
    by (simp add: listed a)
  with l have e: "fst (get_books env0 s0 1) = respond 200 (BooksJson [(book1, Fin 50)])"
    by simp
  from a fifty b seven c d e show ?thesis
    by (intro conjI)
qed

theorem progressPercentage_tie_counterexample:
  "progressPercentage (book1\<lparr>totalPages := 40, currentPage := 23\<rparr>) = Fin 57
   \<and> spec_progressPercentage 23 40 = 58
   \<and> fst (updateProgress env0 (s0\<lparr>books := [book1\<lparr>totalPages := 40\<rparr>, book2]\<rparr>) 1 id_b1 (JNumber (Fin 23)))
       = respond 200 (Progress 23 (Fin 57))"
proof -
  have "progressPercentage (book1\<lparr>totalPages := 40, currentPage := 23\<rparr>) = Fin 57"
    by code_simp
  moreover have "spec_progressPercentage 23 40 = 58"
    by (simp add: spec_progressPercentage_def round_def floor_eq_iff)
  moreover have "fst (updateProgress env0 (s0\<lparr>books := [book1\<lparr>totalPages := 40\<rparr>, book2]\<rparr>) 1 id_b1
      (JNumber (Fin 23))) = respond 200 (Progress 23 (Fin 57))"
    by code_simp
  ultimately show ?thesis
    by (intro conjI)
qed

end
